theory Spec2Isabelle
  imports Complex_Main "HOL-Library.Multiset" "HOL-Library.Log_Nat"
begin

section \<open>Live quiz sessions: the in-memory session manager and its socket handlers\<close>

text \<open>
  The development embeds the session manager (the module the handlers import as
  \<^verbatim>\<open>sessionManager.js\<close>, second half of \<^verbatim>\<open>src/socket/socketHandlers.js\<close>) and the
  command handlers of \<^verbatim>\<open>src/socket/quizSessionHandlers.js\<close>.

  Conventions of the embedding:
  \<^item> the module-level \<^verbatim>\<open>activeSessions\<close> map, the pending \<^verbatim>\<open>setTimeout\<close> handles and the
    per-socket fields \<^verbatim>\<open>socket.oderId\<close> / \<^verbatim>\<open>socket.sessionCode\<close> form an explicit
    \<open>world\<close> that every operation takes and returns;
  \<^item> \<^verbatim>\<open>Date.now()\<close> is an extra argument \<open>now\<close> (milliseconds, an integer);
  \<^item> a JavaScript \<^verbatim>\<open>Map\<close> of participants is an association list in insertion order:
    \<^verbatim>\<open>set\<close> on a present key replaces the value in place, on a new key appends;
  \<^item> the Numbers that hold milliseconds, points and counters are integers; the fractional
    ones of the scoring code are IEEE 754 doubles, modelled as the rationals they denote,
    with every division, subtraction and multiplication rounded to the nearest double;
  \<^item> database calls and room broadcasts do not touch the in-memory state and are left out
    (the awaited ones are taken to succeed); a handler runs to completion before the next
    one starts;
  \<^item> a string field missing from a command's payload is the empty string, which the
    handlers' truthiness checks treat alike.
\<close>

subsection \<open>Data model\<close>

datatype status = Lobby | InProgress | Paused | Completed | Interrupted

record question =
  question_id :: string
  options :: "string list"
  correct_answers :: "string list"

record participant =
  oderId :: string
  userName :: string
  userPhoto :: "string option"
  socketId :: string
  score :: int
  correctAnswers :: int
  totalAnswered :: int
  currentAnswer :: "string option"
  hasAnsweredCurrent :: bool
  isConnected :: bool
  joinedAt :: int
  lastDisconnectedAt :: "int option"

record session =
  sessionCode :: string
  sessionId :: string
  quizId :: string
  quizTitle :: string
  adminId :: string
  adminSocketId :: string
  questions :: "question list"
  currentQuestionIndex :: int
  questionStartTime :: "int option"
  timePerQuestion :: int
  status :: status
  basePointsPerQuestion :: int
  speedBonusMax :: int
  allowLateJoin :: bool
  showLeaderboardAfterEach :: bool
  participants :: "(string \<times> participant) list"
  questionTimer :: "nat option"
  adminDisconnectTimer :: "nat option"
  createdAt :: int

text \<open>What a pending timeout will run when it fires.\<close>

datatype timer_action =
  QuestionEnd string | QuizComplete string | RemoveSession string

record world =
  activeSessions :: "string \<rightharpoonup> session"
  pendingTimers :: "(nat \<times> timer_action) list"
  nextTimer :: nat
  socketOderId :: "string \<rightharpoonup> string"
  socketSessionCode :: "string \<rightharpoonup> string"

text \<open>The error replies, one constructor per message of the source.\<close>

datatype error =
    SessionNotFound
  | ParticipantNotFound
  | AlreadyAnswered
  | TimeExpired
  | QuestionNotFound
  | JoinFieldsRequired
  | SessionEnded
  | LateJoinNotAllowed
  | NotSessionAdmin
  | NoMoreQuestions
  | NotAuthenticated
  | QuestionChanged
  | CodeGenerationFailed
  | OnlyAdminsCreate
  | QuizIdRequired
  | QuizNotFound
  | HandlerException

subsection \<open>JavaScript containers and timers\<close>

text \<open>\<^verbatim>\<open>Map.prototype.get\<close> and \<^verbatim>\<open>Map.prototype.set\<close> on an insertion-ordered map.\<close>

fun map_get :: "('k \<times> 'v) list \<Rightarrow> 'k \<Rightarrow> 'v option" where
  "map_get [] k = None"
| "map_get ((k', v) # kvs) k = (if k' = k then Some v else map_get kvs k)"

fun map_set :: "'k \<Rightarrow> 'v \<Rightarrow> ('k \<times> 'v) list \<Rightarrow> ('k \<times> 'v) list" where
  "map_set k v [] = [(k, v)]"
| "map_set k v ((k', v') # kvs) =
     (if k' = k then (k, v) # kvs else (k', v') # map_set k v kvs)"

text \<open>\<^verbatim>\<open>xs[i]\<close>: \<^verbatim>\<open>undefined\<close> (here \<open>None\<close>) outside \<open>0 .. length - 1\<close>.\<close>

definition array_get :: "'a list \<Rightarrow> int \<Rightarrow> 'a option" where
  "array_get xs i = (if 0 \<le> i \<and> i < int (length xs) then Some (xs ! nat i) else None)"

text \<open>\<^verbatim>\<open>xs.slice(0, end)\<close>: a negative \<open>end\<close> counts from the end of the array.\<close>

definition slice0 :: "'a list \<Rightarrow> int \<Rightarrow> 'a list" where
  "slice0 xs e = take (if e < 0 then nat (int (length xs) + e) else nat e) xs"

definition setTimeout :: "world \<Rightarrow> timer_action \<Rightarrow> nat \<times> world" where
  "setTimeout w a =
     (nextTimer w,
      w\<lparr>pendingTimers := pendingTimers w @ [(nextTimer w, a)], nextTimer := nextTimer w + 1\<rparr>)"

definition clearTimeout :: "world \<Rightarrow> nat \<Rightarrow> world" where
  "clearTimeout w h = w\<lparr>pendingTimers := filter (\<lambda>(h', a). h' \<noteq> h) (pendingTimers w)\<rparr>"

definition timerPending :: "world \<Rightarrow> nat \<Rightarrow> bool" where
  "timerPending w h = (h \<in> fst ` set (pendingTimers w))"

subsection \<open>JavaScript Numbers\<close>

text \<open>
  A double is a rational \<open>m * 2 ^ e\<close> with a significand \<open>m\<close> of at most 53 bits. An
  arithmetic operation yields the double nearest to the exact result, a tie going to the
  even significand. \<open>toDouble\<close> is that rounding: it scales the magnitude into
  \<open>2 ^ 52 \<le> \<bar>x\<bar> / 2 ^ e < 2 ^ 53\<close> and rounds there to an integer. The exponent is not
  bounded: quotients, differences and products of the integers the scoring code meets
  (below \<open>2 ^ 53\<close> in magnitude) neither overflow nor reach the subnormal range.
\<close>

definition roundTiesToEven :: "rat \<Rightarrow> int" where
  "roundTiesToEven q =
     (let f = \<lfloor>q\<rfloor>; r = q - of_int f
      in if r < 1 / 2 then f
         else if 1 / 2 < r then f + 1
         else if even f then f else f + 1)"

definition toDouble :: "rat \<Rightarrow> rat" where
  "toDouble x =
     (if x = 0 then 0
      else
        let (n, d) = quotient_of \<bar>x\<bar>;
            e0 = bitlen n - bitlen d - 53;
            e = (if \<bar>x\<bar> < 2 powi (e0 + 53) then e0 else e0 + 1)
        in sgn x * of_int (roundTiesToEven (\<bar>x\<bar> / 2 powi e)) * 2 powi e)"

text \<open>The operators \<^verbatim>\<open>/\<close>, \<^verbatim>\<open>-\<close> and \<^verbatim>\<open>*\<close> on doubles, and \<^verbatim>\<open>Math.round\<close>, which rounds half up.\<close>

definition num_div :: "rat \<Rightarrow> rat \<Rightarrow> rat" where
  "num_div a b = toDouble (a / b)"

definition num_sub :: "rat \<Rightarrow> rat \<Rightarrow> rat" where
  "num_sub a b = toDouble (a - b)"

definition num_mul :: "rat \<Rightarrow> rat \<Rightarrow> rat" where
  "num_mul a b = toDouble (a * b)"

definition Math_round :: "rat \<Rightarrow> int" where
  "Math_round x = \<lfloor>x + 1 / 2\<rfloor>"

subsection \<open>Session manager\<close>



text \<open>
  The argument of \<^verbatim>\<open>createSession\<close>. A field that may be missing is an option;
  \<^verbatim>\<open>x || d\<close> takes the default for a missing and for a falsy value (\<open>0\<close>, \<open>false\<close>),
  \<^verbatim>\<open>x ?? d\<close> only for a missing one.
\<close>

record session_data =
  sd_sessionId :: string
  sd_quizId :: string
  sd_quizTitle :: string
  sd_adminId :: string
  sd_adminSocketId :: string
  sd_questions :: "question list"
  sd_timePerQuestion :: "int option"
  sd_basePointsPerQuestion :: "int option"
  sd_speedBonusMax :: "int option"
  sd_allowLateJoin :: "bool option"
  sd_showLeaderboardAfterEach :: "bool option"

definition or_default :: "int option \<Rightarrow> int \<Rightarrow> int" where
  "or_default x d = (case x of None \<Rightarrow> d | Some v \<Rightarrow> if v = 0 then d else v)"

definition newSession :: "string \<Rightarrow> session_data \<Rightarrow> int \<Rightarrow> session" where
  "newSession code sd now =
     \<lparr>sessionCode = code,
      sessionId = sd_sessionId sd,
      quizId = sd_quizId sd,
      quizTitle = sd_quizTitle sd,
      adminId = sd_adminId sd,
      adminSocketId = sd_adminSocketId sd,
      questions = sd_questions sd,
      currentQuestionIndex = - 1,
      questionStartTime = None,
      timePerQuestion = or_default (sd_timePerQuestion sd) 30,
      status = Lobby,
      basePointsPerQuestion = or_default (sd_basePointsPerQuestion sd) 100,
      speedBonusMax = or_default (sd_speedBonusMax sd) 50,
      allowLateJoin = (case sd_allowLateJoin sd of None \<Rightarrow> False | Some b \<Rightarrow> b),
      showLeaderboardAfterEach =
        (case sd_showLeaderboardAfterEach sd of None \<Rightarrow> True | Some b \<Rightarrow> b),
      participants = [],
      questionTimer = None,
      adminDisconnectTimer = None,
      createdAt = now\<rparr>"

definition createSession :: "world \<Rightarrow> string \<Rightarrow> session_data \<Rightarrow> int \<Rightarrow> session \<times> world" where
  "createSession w code sd now =
     (newSession code sd now,
      w\<lparr>activeSessions := (activeSessions w)(code \<mapsto> newSession code sd now)\<rparr>)"

definition getSession :: "world \<Rightarrow> string \<Rightarrow> session option" where
  "getSession w code = activeSessions w code"

record participant_data =
  pd_oderId :: string
  pd_userName :: string
  pd_userPhoto :: "string option"
  pd_socketId :: string

definition newParticipant :: "participant_data \<Rightarrow> int \<Rightarrow> participant" where
  "newParticipant pd now =
     \<lparr>oderId = pd_oderId pd,
      userName = pd_userName pd,
      userPhoto = (case pd_userPhoto pd of None \<Rightarrow> None
                   | Some u \<Rightarrow> if u = [] then None else Some u),
      socketId = pd_socketId pd,
      score = 0,
      correctAnswers = 0,
      totalAnswered = 0,
      currentAnswer = None,
      hasAnsweredCurrent = False,
      isConnected = True,
      joinedAt = now,
      lastDisconnectedAt = None\<rparr>"

definition addParticipant ::
  "world \<Rightarrow> string \<Rightarrow> participant_data \<Rightarrow> int \<Rightarrow> (error + participant) \<times> world" where
  "addParticipant w code pd now =
     (case activeSessions w code of
        None \<Rightarrow> (Inl SessionNotFound, w)
      | Some session \<Rightarrow>
          (Inr (newParticipant pd now),
           w\<lparr>activeSessions := (activeSessions w)(code \<mapsto>
               session\<lparr>participants :=
                 map_set (pd_oderId pd) (newParticipant pd now) (participants session)\<rparr>)\<rparr>))"

definition getParticipant :: "world \<Rightarrow> string \<Rightarrow> string \<Rightarrow> participant option" where
  "getParticipant w code oid =
     (case activeSessions w code of
        None \<Rightarrow> None
      | Some session \<Rightarrow> map_get (participants session) oid)"

definition getParticipants :: "world \<Rightarrow> string \<Rightarrow> participant list" where
  "getParticipants w code =
     (case activeSessions w code of
        None \<Rightarrow> []
      | Some session \<Rightarrow> map snd (participants session))"

definition getParticipantCount :: "world \<Rightarrow> string \<Rightarrow> nat" where
  "getParticipantCount w code =
     (case activeSessions w code of
        None \<Rightarrow> 0
      | Some session \<Rightarrow> length (participants session))"

definition clearFlags :: "participant \<Rightarrow> participant" where
  "clearFlags p = p\<lparr>hasAnsweredCurrent := False, currentAnswer := None\<rparr>"

definition advanceQuestion :: "world \<Rightarrow> string \<Rightarrow> int \<Rightarrow> session option \<times> world" where
  "advanceQuestion w code now =
     (case activeSessions w code of
        None \<Rightarrow> (None, w)
      | Some session \<Rightarrow>
          let w1 = (case questionTimer session of
                      None \<Rightarrow> w
                    | Some h \<Rightarrow> clearTimeout w h);
              i = currentQuestionIndex session + 1;
              session' = session
                \<lparr>questionTimer := None,
                 participants := map (\<lambda>(k, p). (k, clearFlags p)) (participants session),
                 currentQuestionIndex := i,
                 questionStartTime := Some now,
                 status := (if i = 0 then InProgress else status session)\<rparr>
          in (Some session', w1\<lparr>activeSessions := (activeSessions w1)(code \<mapsto> session')\<rparr>))"

record answer_result =
  isCorrect :: bool
  pointsAwarded :: int
  speedBonus :: int
  responseTimeMs :: int
  newScore :: int

text \<open>
  \<^verbatim>\<open>recordAnswer\<close>. \<^verbatim>\<open>Date.now() - session.questionStartTime\<close> reads a \<^verbatim>\<open>null\<close> start
  time as \<open>0\<close>. The time ratio and its product with the maximal bonus are doubles. With
  \<open>timePerQuestion = 0\<close> JavaScript would produce a non-finite Number where HOL's
  \<open>x / 0\<close> is \<open>0\<close>, so statements about the bonus assume a non-zero time limit (which
  \<open>createSession\<close> guarantees).
\<close>

definition recordAnswer ::
  "world \<Rightarrow> string \<Rightarrow> string \<Rightarrow> string \<Rightarrow> int \<Rightarrow> (error + answer_result) \<times> world" where
  "recordAnswer w code oid selectedOption now =
     (case activeSessions w code of
        None \<Rightarrow> (Inl SessionNotFound, w)
      | Some session \<Rightarrow>
     (case map_get (participants session) oid of
        None \<Rightarrow> (Inl ParticipantNotFound, w)
      | Some p \<Rightarrow>
          if hasAnsweredCurrent p then (Inl AlreadyAnswered, w)
          else
            let rt = now - (case questionStartTime session of None \<Rightarrow> 0 | Some t \<Rightarrow> t);
                timeLimit = timePerQuestion session * 1000
            in
            if rt > timeLimit + 1000 then (Inl TimeExpired, w)
            else
              (case array_get (questions session) (currentQuestionIndex session) of
                 None \<Rightarrow> (Inl QuestionNotFound, w)
               | Some q \<Rightarrow>
                   let correct = (selectedOption \<in> set (correct_answers q));
                       timeRatio = num_sub 1 (num_div (of_int rt) (of_int timeLimit));
                       rounded = Math_round (num_mul timeRatio (of_int (speedBonusMax session)));
                       bonus = (if correct then (if rounded < 0 then 0 else rounded) else 0);
                       points = (if correct then basePointsPerQuestion session + bonus else 0);
                       p' = p\<lparr>hasAnsweredCurrent := True,
                              currentAnswer := Some selectedOption,
                              score := score p + points,
                              totalAnswered := totalAnswered p + 1,
                              correctAnswers :=
                                (if correct then correctAnswers p + 1 else correctAnswers p)\<rparr>
                   in (Inr \<lparr>isCorrect = correct,
                            pointsAwarded = points,
                            speedBonus = bonus,
                            responseTimeMs = rt,
                            newScore = score p'\<rparr>,
                       w\<lparr>activeSessions := (activeSessions w)(code \<mapsto>
                           session\<lparr>participants :=
                             map_set oid p' (participants session)\<rparr>)\<rparr>))))"

text \<open>
  \<^verbatim>\<open>getLeaderboard\<close>. \<^verbatim>\<open>String.prototype.localeCompare\<close> belongs to the runtime, not to
  the repository, and is a parameter \<open>lc\<close>. \<^verbatim>\<open>Array.prototype.sort\<close> is a stable sort;
  for a consistent comparator its result is the one a stable insertion sort computes.
\<close>

definition compareParticipants ::
  "(string \<Rightarrow> string \<Rightarrow> int) \<Rightarrow> participant \<Rightarrow> participant \<Rightarrow> int" where
  "compareParticipants lc a b =
     (if score b \<noteq> score a then score b - score a
      else if correctAnswers b \<noteq> correctAnswers a then correctAnswers b - correctAnswers a
      else lc (userName a) (userName b))"

fun sort_insert :: "('a \<Rightarrow> 'a \<Rightarrow> int) \<Rightarrow> 'a \<Rightarrow> 'a list \<Rightarrow> 'a list" where
  "sort_insert cmp x [] = [x]"
| "sort_insert cmp x (y # ys) =
     (if cmp x y \<le> 0 then x # y # ys else y # sort_insert cmp x ys)"

definition array_sort :: "('a \<Rightarrow> 'a \<Rightarrow> int) \<Rightarrow> 'a list \<Rightarrow> 'a list" where
  "array_sort cmp xs = foldr (sort_insert cmp) xs []"

record leaderboard_entry =
  rank :: nat
  e_oderId :: string
  e_userName :: string
  e_userPhoto :: "string option"
  e_score :: int
  e_correctAnswers :: int
  e_totalAnswered :: int

definition toEntry :: "nat \<times> participant \<Rightarrow> leaderboard_entry" where
  "toEntry ip =
     \<lparr>rank = fst ip + 1,
      e_oderId = oderId (snd ip),
      e_userName = userName (snd ip),
      e_userPhoto = userPhoto (snd ip),
      e_score = score (snd ip),
      e_correctAnswers = correctAnswers (snd ip),
      e_totalAnswered = totalAnswered (snd ip)\<rparr>"

definition getLeaderboard ::
  "(string \<Rightarrow> string \<Rightarrow> int) \<Rightarrow> world \<Rightarrow> string \<Rightarrow> int \<Rightarrow> leaderboard_entry list" where
  "getLeaderboard lc w code limit =
     (case activeSessions w code of
        None \<Rightarrow> []
      | Some session \<Rightarrow>
          map toEntry (enumerate 0
            (slice0 (array_sort (compareParticipants lc) (map snd (participants session)))
               limit)))"

definition setQuestionTimer :: "world \<Rightarrow> string \<Rightarrow> timer_action \<Rightarrow> world" where
  "setQuestionTimer w code callback =
     (case activeSessions w code of
        None \<Rightarrow> w
      | Some session \<Rightarrow>
          let w1 = (case questionTimer session of
                      None \<Rightarrow> w
                    | Some h \<Rightarrow> clearTimeout w h);
              (h', w2) = setTimeout w1 callback
          in w2\<lparr>activeSessions := (activeSessions w2)(code \<mapsto>
                 session\<lparr>questionTimer := Some h'\<rparr>)\<rparr>)"

definition clearQuestionTimer :: "world \<Rightarrow> string \<Rightarrow> world" where
  "clearQuestionTimer w code =
     (case activeSessions w code of
        None \<Rightarrow> w
      | Some session \<Rightarrow>
          (case questionTimer session of
             None \<Rightarrow> w
           | Some h \<Rightarrow>
               (clearTimeout w h)\<lparr>activeSessions := (activeSessions w)(code \<mapsto>
                  session\<lparr>questionTimer := None\<rparr>)\<rparr>))"

text \<open>
  \<^verbatim>\<open>updateParticipantConnection\<close>: the socket id is taken only when it is truthy
  (present and not the empty string).
\<close>

definition updateParticipantConnection ::
  "world \<Rightarrow> string \<Rightarrow> string \<Rightarrow> bool \<Rightarrow> string option \<Rightarrow> int \<Rightarrow> participant option \<times> world" where
  "updateParticipantConnection w code oid conn sock now =
     (case activeSessions w code of
        None \<Rightarrow> (None, w)
      | Some session \<Rightarrow>
     (case map_get (participants session) oid of
        None \<Rightarrow> (None, w)
      | Some p \<Rightarrow>
          let p' = p\<lparr>isConnected := conn,
                     socketId := (case sock of
                                    None \<Rightarrow> socketId p
                                  | Some sid \<Rightarrow> if sid = [] then socketId p else sid),
                     lastDisconnectedAt :=
                       (if conn then lastDisconnectedAt p else Some now)\<rparr>
          in (Some p',
              w\<lparr>activeSessions := (activeSessions w)(code \<mapsto>
                  session\<lparr>participants := map_set oid p' (participants session)\<rparr>)\<rparr>)))"

text \<open>\<^verbatim>\<open>endSession\<close> clears both timeouts (the fields keep their handles).\<close>

definition endSession :: "world \<Rightarrow> string \<Rightarrow> session option \<times> world" where
  "endSession w code =
     (case activeSessions w code of
        None \<Rightarrow> (None, w)
      | Some session \<Rightarrow>
          let w1 = (case questionTimer session of
                      None \<Rightarrow> w
                    | Some h \<Rightarrow> clearTimeout w h);
              w2 = (case adminDisconnectTimer session of
                      None \<Rightarrow> w1
                    | Some h \<Rightarrow> clearTimeout w1 h);
              session' = session\<lparr>status := Completed\<rparr>
          in (Some session', w2\<lparr>activeSessions := (activeSessions w2)(code \<mapsto> session')\<rparr>))"

subsection \<open>Command handlers\<close>

text \<open>
  \<^verbatim>\<open>handleQuestionEnd\<close> reads the session to build its broadcasts; the only thing it
  leaves behind is the timeout that completes the quiz after the last question.
\<close>

definition handleQuestionEnd :: "world \<Rightarrow> string \<Rightarrow> world" where
  "handleQuestionEnd w code =
     (case getSession w code of
        None \<Rightarrow> w
      | Some session \<Rightarrow>
          (case array_get (questions session) (currentQuestionIndex session) of
             None \<Rightarrow> w
           | Some q \<Rightarrow>
               if currentQuestionIndex session \<ge> int (length (questions session)) - 1
               then snd (setTimeout w (QuizComplete code))
               else w))"

definition handleQuizComplete :: "world \<Rightarrow> string \<Rightarrow> world" where
  "handleQuizComplete w code =
     (case getSession w code of
        None \<Rightarrow> w
      | Some session \<Rightarrow>
          if status session = Completed then w
          else snd (setTimeout (snd (endSession w code)) (RemoveSession code)))"



text \<open>
  \<^verbatim>\<open>session:join\<close>. The reply keeps the fields that come from the registry. On a
  reconnection to a quiz in progress the handler reads the fields of the current question
  for the resync data, after it has updated the connection; were there no such question,
  the read would throw and the \<^verbatim>\<open>catch\<close> would reply the exception's message.
\<close>

datatype join_ok =
    Reconnected (participantCount: nat) (yourScore: int)
  | Joined (participantCount: nat)

definition bindSocket :: "world \<Rightarrow> string \<Rightarrow> string \<Rightarrow> string \<Rightarrow> world" where
  "bindSocket w sock code oid =
     w\<lparr>socketSessionCode := (socketSessionCode w)(sock \<mapsto> code),
       socketOderId := (socketOderId w)(sock \<mapsto> oid)\<rparr>"

definition session_join ::
  "world \<Rightarrow> string \<Rightarrow> string \<Rightarrow> string \<Rightarrow> string \<Rightarrow> string option \<Rightarrow> int \<Rightarrow>
   (error + join_ok) \<times> world" where
  "session_join w sock code oid name photo now =
     (if code = [] \<or> oid = [] \<or> name = [] then (Inl JoinFieldsRequired, w)
      else
        (case getSession w code of
           None \<Rightarrow> (Inl SessionNotFound, w)
         | Some session \<Rightarrow>
             if status session = Completed \<or> status session = Interrupted
             then (Inl SessionEnded, w)
             else if status session = InProgress \<and> \<not> allowLateJoin session
             then (Inl LateJoinNotAllowed, w)
             else
               (case getParticipant w code oid of
                  Some existingParticipant \<Rightarrow>
                    let w1 = snd (updateParticipantConnection w code oid True (Some sock) now);
                        w2 = bindSocket w1 sock code oid
                    in if status session = InProgress \<and> currentQuestionIndex session \<ge> 0
                            \<and> array_get (questions session) (currentQuestionIndex session)
                                = None
                       then (Inl HandlerException, w2)
                       else (Inr (Reconnected (getParticipantCount w2 code)
                                    (score existingParticipant)), w2)
                | None \<Rightarrow>
                    let w1 = snd (addParticipant w code
                               \<lparr>pd_oderId = oid, pd_userName = name, pd_userPhoto = photo,
                                pd_socketId = sock\<rparr> now);
                        w2 = bindSocket w1 sock code oid
                    in (Inr (Joined (getParticipantCount w2 code)), w2))))"

text \<open>\<^verbatim>\<open>session:leave\<close>: the participant stays registered, marked disconnected.\<close>

definition session_leave :: "world \<Rightarrow> string \<Rightarrow> string \<Rightarrow> int \<Rightarrow> world" where
  "session_leave w sock code now =
     (case socketOderId w sock of
        None \<Rightarrow> w
      | Some oid \<Rightarrow>
          if oid = [] \<or> code = [] then w
          else snd (updateParticipantConnection w code oid False None now))"

text \<open>
  \<^verbatim>\<open>question:next\<close>: the reply carries the new question index. After advancing, the
  handler reads the fields of the question at the new index; were there none, the read
  would throw, and the \<^verbatim>\<open>catch\<close> would reply the exception's message with the session
  already advanced and no timer armed.
\<close>

definition question_next :: "world \<Rightarrow> string \<Rightarrow> string \<Rightarrow> int \<Rightarrow> (error + int) \<times> world" where
  "question_next w sock code now =
     (case getSession w code of
        None \<Rightarrow> (Inl SessionNotFound, w)
      | Some session \<Rightarrow>
          if adminSocketId session \<noteq> sock then (Inl NotSessionAdmin, w)
          else if currentQuestionIndex session \<ge> int (length (questions session)) - 1
          then (Inl NoMoreQuestions, w)
          else
            let w1 = snd (advanceQuestion w code now)
            in (case array_get (questions session) (currentQuestionIndex session + 1) of
                  None \<Rightarrow> (Inl HandlerException, w1)
                | Some q \<Rightarrow>
                    (Inr (currentQuestionIndex session + 1),
                     setQuestionTimer w1 code (QuestionEnd code))))"

text \<open>\<^verbatim>\<open>answer:submit\<close>: the acknowledgement reveals nothing, so the reply is a unit.\<close>

definition answer_submit ::
  "world \<Rightarrow> string \<Rightarrow> string \<Rightarrow> int \<Rightarrow> string \<Rightarrow> int \<Rightarrow> (error + unit) \<times> world" where
  "answer_submit w sock code questionIndex selectedOption now =
     (case socketOderId w sock of
        None \<Rightarrow> (Inl NotAuthenticated, w)
      | Some oid \<Rightarrow>
          if oid = [] then (Inl NotAuthenticated, w)
          else
            (case getSession w code of
               None \<Rightarrow> (Inl SessionNotFound, w)
             | Some session \<Rightarrow>
                 if currentQuestionIndex session \<noteq> questionIndex
                 then (Inl QuestionChanged, w)
                 else
                   (case recordAnswer w code oid selectedOption now of
                      (Inl e, w') \<Rightarrow> (Inl e, w')
                    | (Inr r, w') \<Rightarrow> (Inr (), w'))))"

definition question_skip :: "world \<Rightarrow> string \<Rightarrow> string \<Rightarrow> (error + unit) \<times> world" where
  "question_skip w sock code =
     (case getSession w code of
        None \<Rightarrow> (Inl SessionNotFound, w)
      | Some session \<Rightarrow>
          if adminSocketId session \<noteq> sock then (Inl NotSessionAdmin, w)
          else (Inr (), handleQuestionEnd (clearQuestionTimer w code) code))"

definition session_end :: "world \<Rightarrow> string \<Rightarrow> string \<Rightarrow> (error + unit) \<times> world" where
  "session_end w sock code =
     (case getSession w code of
        None \<Rightarrow> (Inl SessionNotFound, w)
      | Some session \<Rightarrow>
          if adminSocketId session \<noteq> sock then (Inl NotSessionAdmin, w)
          else (Inr (), handleQuizComplete w code))"

subsection \<open>Command sequences\<close>

text \<open>
  The commands of the real-time surface that change a session, each issued on a socket
  (first argument) and processed at a time; \<open>run\<close> processes a sequence in order.
\<close>

datatype command =
    Join string string string string "string option"
  | Answer string string int string
  | Next string string
  | Skip string string
  | End string string

fun step :: "world \<Rightarrow> command \<times> int \<Rightarrow> world" where
  "step w (Join sock code oid name photo, now) = snd (session_join w sock code oid name photo now)"
| "step w (Answer sock code qi opt, now) = snd (answer_submit w sock code qi opt now)"
| "step w (Next sock code, now) = snd (question_next w sock code now)"
| "step w (Skip sock code, now) = snd (question_skip w sock code)"
| "step w (End sock code, now) = snd (session_end w sock code)"

definition run :: "world \<Rightarrow> (command \<times> int) list \<Rightarrow> world" where
  "run w cs = foldl step w cs"

subsection \<open>How a session changes over a run\<close>

text \<open>
  \<open>session_evolves s s'\<close> relates a session to a later state of itself: the question
  snapshot is the same, the question index has not decreased and has stayed within the
  snapshot if it was, every participant is still registered, and a participant who had
  answered the current question is still marked so while the index is the same.
\<close>

definition session_evolves :: "session \<Rightarrow> session \<Rightarrow> bool" where
  "session_evolves s s' \<longleftrightarrow>
     questions s' = questions s \<and>
     currentQuestionIndex s \<le> currentQuestionIndex s' \<and>
     (currentQuestionIndex s \<le> int (length (questions s)) - 1 \<longrightarrow>
        currentQuestionIndex s' \<le> int (length (questions s)) - 1) \<and>
     (\<forall>oid p. map_get (participants s) oid = Some p \<longrightarrow>
        (\<exists>p'. map_get (participants s') oid = Some p' \<and>
           (currentQuestionIndex s' = currentQuestionIndex s \<and> hasAnsweredCurrent p \<longrightarrow>
              hasAnsweredCurrent p')))"

subsection \<open>The correctness rule in the words of the specification\<close>

text \<open>
  The specification asks that the selection match the question's correct-answer set as a
  whole. A submission carries one option, so it matches the set as a whole exactly when
  that option is the set's only member.
\<close>

definition spec_matches_whole_set :: "string \<Rightarrow> question \<Rightarrow> bool" where
  "spec_matches_whole_set selectedOption q = (set (correct_answers q) = {selectedOption})"

subsection \<open>The speed bonus in the words of the specification\<close>

text \<open>
  The specification's formula \<open>round (maxSpeedBonus * (1 - responseLatencyMs / timeLimitMs))\<close>,
  clamped to be at least \<open>0\<close>, over exact numbers.
\<close>

definition spec_speed_bonus :: "int \<Rightarrow> int \<Rightarrow> int \<Rightarrow> int" where
  "spec_speed_bonus maxSpeedBonus responseLatencyMs timeLimitMs =
     max 0 (round (of_int maxSpeedBonus *
       (1 - of_int responseLatencyMs / of_int timeLimitMs :: rat)))"

subsection \<open>The leaderboard order in the words of the specification\<close>

text \<open>
  The specification sorts by score descending, then correct count descending, then display
  name ascending: \<open>a\<close> may stand before \<open>b\<close> when this holds. Names are compared by the
  collation \<open>lc\<close>, negative or zero when the first name does not come after the second.
\<close>

definition spec_ranked_before ::
  "(string \<Rightarrow> string \<Rightarrow> int) \<Rightarrow> participant \<Rightarrow> participant \<Rightarrow> bool" where
  "spec_ranked_before lc a b \<longleftrightarrow>
     score a > score b \<or>
     (score a = score b \<and>
       (correctAnswers a > correctAnswers b \<or>
        (correctAnswers a = correctAnswers b \<and> lc (userName a) (userName b) \<le> 0)))"

text \<open>
  What \<^verbatim>\<open>sort\<close> needs of the collation for its result to be determined: any two names
  are comparable, and the comparison is transitive.
\<close>

definition consistentCollation :: "(string \<Rightarrow> string \<Rightarrow> int) \<Rightarrow> bool" where
  "consistentCollation lc \<longleftrightarrow>
     (\<forall>a b. lc a b \<le> 0 \<or> lc b a \<le> 0) \<and>
     (\<forall>a b c. lc a b \<le> 0 \<longrightarrow> lc b c \<le> 0 \<longrightarrow> lc a c \<le> 0)"

subsection \<open>An example session\<close>

text \<open>
  A two-question quiz with the default scoring (100 base points, 50 bonus points, 30
  seconds per question), hosted on socket \<open>sockH\<close>; Ann and Bob join on \<open>sock1\<close> and
  \<open>sock2\<close>. The second question has two correct options.
\<close>

definition emptyWorld :: world where
  "emptyWorld =
     \<lparr>activeSessions = Map.empty, pendingTimers = [], nextTimer = 0,
      socketOderId = Map.empty, socketSessionCode = Map.empty\<rparr>"

definition exampleQuestions :: "question list" where
  "exampleQuestions =
     [\<lparr>question_id = ''q1'', options = [''a'', ''b'', ''c'', ''d''], correct_answers = [''b'']\<rparr>,
      \<lparr>question_id = ''q2'', options = [''a'', ''b'', ''c'', ''d''],
       correct_answers = [''a'', ''c'']\<rparr>]"

definition exampleData :: session_data where
  "exampleData =
     \<lparr>sd_sessionId = ''s1'', sd_quizId = ''quiz1'', sd_quizTitle = ''Demo'',
      sd_adminId = ''host'', sd_adminSocketId = ''sockH'', sd_questions = exampleQuestions,
      sd_timePerQuestion = Some 30, sd_basePointsPerQuestion = Some 100,
      sd_speedBonusMax = Some 50, sd_allowLateJoin = None,
      sd_showLeaderboardAfterEach = None\<rparr>"

definition exParticipant :: "string \<Rightarrow> string \<Rightarrow> string \<Rightarrow> int \<Rightarrow> participant" where
  "exParticipant oid name sock t =
     newParticipant
       \<lparr>pd_oderId = oid, pd_userName = name, pd_userPhoto = None, pd_socketId = sock\<rparr> t"

definition exampleCreated :: world where
  "exampleCreated = snd (createSession emptyWorld ''ABC234'' exampleData 0)"

definition exampleLobby :: world where
  "exampleLobby =
     snd (session_join
       (snd (session_join exampleCreated ''sock1'' ''ABC234'' ''u1'' ''Ann'' None 10))
       ''sock2'' ''ABC234'' ''u2'' ''Bob'' None 20)"

text \<open>The host opens the first question at time 1000.\<close>

definition exampleOpen :: world where
  "exampleOpen = snd (question_next exampleLobby ''sockH'' ''ABC234'' 1000)"

text \<open>Ann answers it correctly after 2000 ms, then Bob does, also after 2000 ms.\<close>

definition exampleAnswered :: world where
  "exampleAnswered = snd (answer_submit exampleOpen ''sock1'' ''ABC234'' 0 ''b'' 3000)"

definition exampleTied :: world where
  "exampleTied = snd (answer_submit exampleAnswered ''sock2'' ''ABC234'' 0 ''b'' 3000)"

text \<open>The host opens the second, last question at time 40000.\<close>

definition exampleSecond :: world where
  "exampleSecond = snd (question_next exampleTied ''sockH'' ''ABC234'' 40000)"

text \<open>Ann's connection drops while the first question is open.\<close>

definition exampleLeft :: world where
  "exampleLeft = session_leave exampleOpen ''sock1'' ''ABC234'' 2000"

text \<open>
  A second session, which allows late joins: Ann joins, answers the first question
  correctly, and her connection drops while the quiz is in progress.
\<close>

definition exampleLateJoin :: world where
  "exampleLateJoin =
     session_leave
       (run (snd (createSession emptyWorld ''LATE22''
                    (exampleData\<lparr>sd_allowLateJoin := Some True\<rparr>) 0))
          [(Join ''sock1'' ''LATE22'' ''u1'' ''Ann'' None, 10),
           (Next ''sockH'' ''LATE22'', 1000),
           (Answer ''sock1'' ''LATE22'' 0 ''b'', 3000)])
       ''sock1'' ''LATE22'' 4000"


text \<open>
  One collation to run the leaderboard with: strings compared by character code, unit by
  unit.
\<close>

fun codeUnitCompare :: "string \<Rightarrow> string \<Rightarrow> int" where
  "codeUnitCompare [] [] = 0"
| "codeUnitCompare [] (y # ys) = - 1"
| "codeUnitCompare (x # xs) [] = 1"
| "codeUnitCompare (x # xs) (y # ys) =
     (if (of_char x :: nat) < of_char y then - 1
      else if (of_char y :: nat) < of_char x then 1
      else codeUnitCompare xs ys)"


section \<open>Verification\<close>

subsection \<open>Maps in insertion order\<close>

lemma map_get_map_set_same [simp]: "map_get (map_set k v xs) k = Some v"
  by (induction xs) auto

lemma map_get_map_set_other [simp]: "k' \<noteq> k \<Longrightarrow> map_get (map_set k v xs) k' = map_get xs k'"
  by (induction xs) auto

subsection \<open>The example session, step by step\<close>

text \<open>The bonus the doubles give after 2000 ms of 30000 ms, out of 50.\<close>

lemma bonus_after_2000:
  "Math_round (num_mul (num_sub 1 (num_div 2000 30000)) 50) = 47"
  by code_simp

lemmas handler_defs = session_join_def question_next_def answer_submit_def session_leave_def
  getSession_def getParticipant_def getParticipantCount_def bindSocket_def
  createSession_def addParticipant_def advanceQuestion_def recordAnswer_def
  updateParticipantConnection_def setQuestionTimer_def setTimeout_def clearTimeout_def
  newSession_def newParticipant_def or_default_def clearFlags_def array_get_def Let_def

lemmas example_defs = exampleData_def exampleQuestions_def exParticipant_def

lemma exampleLobby_eq:
  "exampleLobby =
    \<lparr>activeSessions = [''ABC234'' \<mapsto>
        (newSession ''ABC234'' exampleData 0)\<lparr>participants :=
          [(''u1'', exParticipant ''u1'' ''Ann'' ''sock1'' 10),
           (''u2'', exParticipant ''u2'' ''Bob'' ''sock2'' 20)]\<rparr>],
      pendingTimers = [], nextTimer = 0,
      socketOderId = [''sock1'' \<mapsto> ''u1'', ''sock2'' \<mapsto> ''u2''],
      socketSessionCode = [''sock1'' \<mapsto> ''ABC234'', ''sock2'' \<mapsto> ''ABC234'']\<rparr>"
  by (simp add: exampleLobby_def exampleCreated_def emptyWorld_def example_defs handler_defs)

lemma exampleOpen_eq:
  "exampleOpen =
    \<lparr>activeSessions = [''ABC234'' \<mapsto>
        (newSession ''ABC234'' exampleData 0)\<lparr>participants :=
          [(''u1'', exParticipant ''u1'' ''Ann'' ''sock1'' 10),
           (''u2'', exParticipant ''u2'' ''Bob'' ''sock2'' 20)],
          currentQuestionIndex := 0, questionStartTime := Some 1000, status := InProgress,
          questionTimer := Some 0\<rparr>],
      pendingTimers = [(0, QuestionEnd ''ABC234'')], nextTimer = 1,
      socketOderId = [''sock1'' \<mapsto> ''u1'', ''sock2'' \<mapsto> ''u2''],
      socketSessionCode = [''sock1'' \<mapsto> ''ABC234'', ''sock2'' \<mapsto> ''ABC234'']\<rparr>"
  by (simp add: exampleOpen_def exampleLobby_eq example_defs handler_defs)

lemma exampleAnswered_eq:
  "exampleAnswered =
    \<lparr>activeSessions = [''ABC234'' \<mapsto>
        (newSession ''ABC234'' exampleData 0)\<lparr>participants :=
          [(''u1'', (exParticipant ''u1'' ''Ann'' ''sock1'' 10)\<lparr>hasAnsweredCurrent := True,
               currentAnswer := Some ''b'', score := 147, totalAnswered := 1,
               correctAnswers := 1\<rparr>),
           (''u2'', exParticipant ''u2'' ''Bob'' ''sock2'' 20)],
          currentQuestionIndex := 0, questionStartTime := Some 1000, status := InProgress,
          questionTimer := Some 0\<rparr>],
      pendingTimers = [(0, QuestionEnd ''ABC234'')], nextTimer = 1,
      socketOderId = [''sock1'' \<mapsto> ''u1'', ''sock2'' \<mapsto> ''u2''],
      socketSessionCode = [''sock1'' \<mapsto> ''ABC234'', ''sock2'' \<mapsto> ''ABC234'']\<rparr>"
  by (simp add: exampleAnswered_def exampleOpen_eq example_defs handler_defs bonus_after_2000)

lemma exampleTied_eq:
  "exampleTied =
    \<lparr>activeSessions = [''ABC234'' \<mapsto>
        (newSession ''ABC234'' exampleData 0)\<lparr>participants :=
          [(''u1'', (exParticipant ''u1'' ''Ann'' ''sock1'' 10)\<lparr>hasAnsweredCurrent := True,
               currentAnswer := Some ''b'', score := 147, totalAnswered := 1,
               correctAnswers := 1\<rparr>),
           (''u2'', (exParticipant ''u2'' ''Bob'' ''sock2'' 20)\<lparr>hasAnsweredCurrent := True,
               currentAnswer := Some ''b'', score := 147, totalAnswered := 1,
               correctAnswers := 1\<rparr>)],
          currentQuestionIndex := 0, questionStartTime := Some 1000, status := InProgress,
          questionTimer := Some 0\<rparr>],
      pendingTimers = [(0, QuestionEnd ''ABC234'')], nextTimer = 1,
      socketOderId = [''sock1'' \<mapsto> ''u1'', ''sock2'' \<mapsto> ''u2''],
      socketSessionCode = [''sock1'' \<mapsto> ''ABC234'', ''sock2'' \<mapsto> ''ABC234'']\<rparr>"
  by (simp add: exampleTied_def exampleAnswered_eq example_defs handler_defs bonus_after_2000)

lemma exampleSecond_eq:
  "exampleSecond =
    \<lparr>activeSessions = [''ABC234'' \<mapsto>
        (newSession ''ABC234'' exampleData 0)\<lparr>participants :=
          [(''u1'', (exParticipant ''u1'' ''Ann'' ''sock1'' 10)\<lparr>score := 147,
               totalAnswered := 1, correctAnswers := 1\<rparr>),
           (''u2'', (exParticipant ''u2'' ''Bob'' ''sock2'' 20)\<lparr>score := 147,
               totalAnswered := 1, correctAnswers := 1\<rparr>)],
          currentQuestionIndex := 1, questionStartTime := Some 40000, status := InProgress,
          questionTimer := Some 1\<rparr>],
      pendingTimers = [(1, QuestionEnd ''ABC234'')], nextTimer = 2,
      socketOderId = [''sock1'' \<mapsto> ''u1'', ''sock2'' \<mapsto> ''u2''],
      socketSessionCode = [''sock1'' \<mapsto> ''ABC234'', ''sock2'' \<mapsto> ''ABC234'']\<rparr>"
  by (simp add: exampleSecond_def exampleTied_eq example_defs handler_defs)

lemma exampleLeft_eq:
  "exampleLeft =
    \<lparr>activeSessions = [''ABC234'' \<mapsto>
        (newSession ''ABC234'' exampleData 0)\<lparr>participants :=
          [(''u1'', (exParticipant ''u1'' ''Ann'' ''sock1'' 10)\<lparr>isConnected := False,
               lastDisconnectedAt := Some 2000\<rparr>),
           (''u2'', exParticipant ''u2'' ''Bob'' ''sock2'' 20)],
          currentQuestionIndex := 0, questionStartTime := Some 1000, status := InProgress,
          questionTimer := Some 0\<rparr>],
      pendingTimers = [(0, QuestionEnd ''ABC234'')], nextTimer = 1,
      socketOderId = [''sock1'' \<mapsto> ''u1'', ''sock2'' \<mapsto> ''u2''],
      socketSessionCode = [''sock1'' \<mapsto> ''ABC234'', ''sock2'' \<mapsto> ''ABC234'']\<rparr>"
  by (simp add: exampleLeft_def exampleOpen_eq example_defs handler_defs)


subsection \<open>Scoring\<close>

text \<open>
  Rounding to a double moves a number by at most \<open>2 ^ -53\<close> of its magnitude; over the
  three operations of the bonus the doubles stay within one point of the exact formula.
\<close>

lemma roundTiesToEven_close: "\<bar>of_int (roundTiesToEven q) - q\<bar> \<le> 1 / 2"
proof -
  have "of_int \<lfloor>q\<rfloor> \<le> q" "q < of_int \<lfloor>q\<rfloor> + 1"
    by linarith+
  then show ?thesis
    by (auto simp: roundTiesToEven_def Let_def)
qed

lemma quotient_of_pos:
  assumes "0 < x" and "quotient_of x = (n, d)"
  shows "0 < n" "0 < d" "x = of_int n / of_int d"
proof -
  from assms(2) show d: "0 < d" by (rule quotient_of_denom_pos)
  from assms(2) show x: "x = of_int n / of_int d" by (rule quotient_of_div)
  from assms(1) x d show "0 < n"
    by (simp add: zero_less_divide_iff)
qed

lemma bitlen_powi_bounds:
  assumes "0 < n"
  shows "(2::rat) powi (bitlen n - 1) \<le> of_int n" "of_int n < (2::rat) powi (bitlen n)"
proof -
  from assms have b: "1 \<le> bitlen n"
    by (simp add: bitlen_alt_def) 
  from bitlen_bounds [OF assms] have "2 ^ nat (bitlen n - 1) \<le> n" "n < 2 ^ nat (bitlen n)"
    by auto
  then have "(of_int (2 ^ nat (bitlen n - 1)) :: rat) \<le> of_int n"
    "(of_int n :: rat) < of_int (2 ^ nat (bitlen n))"
    by (simp_all only: of_int_le_iff of_int_less_iff)
  with b show "(2::rat) powi (bitlen n - 1) \<le> of_int n" "of_int n < (2::rat) powi (bitlen n)"
    by (simp_all add: power_int_def)
qed

lemma ratio_powi_bounds:
  assumes "0 < x" and "quotient_of x = (n, d)"
  shows "(2::rat) powi (bitlen n - bitlen d - 1) < x" "x < (2::rat) powi (bitlen n - bitlen d + 1)"
proof -
  note q = quotient_of_pos [OF assms]
  note bn = bitlen_powi_bounds [OF q(1)]
  note bd = bitlen_powi_bounds [OF q(2)]
  have p: "(0::rat) < 2 powi k" for k :: int
    by simp
  have "(2::rat) powi (bitlen n - bitlen d - 1) = 2 powi (bitlen n - 1) / 2 powi (bitlen d)"
    by (simp add: power_int_diff)
  also have "\<dots> \<le> of_int n / 2 powi (bitlen d)"
    using bn(1) by (simp add: divide_right_mono)
  also have "\<dots> < of_int n / of_int d"
    using bd(2) q(1,2) by (intro divide_strict_left_mono) auto
  finally show "(2::rat) powi (bitlen n - bitlen d - 1) < x"
    by (simp add: q(3))
  have "x = of_int n / of_int d" by (rule q(3))
  also have "\<dots> < 2 powi (bitlen n) / of_int d"
    using bn(2) q(2) by (simp add: divide_strict_right_mono)
  also have "\<dots> \<le> 2 powi (bitlen n) / 2 powi (bitlen d - 1)"
    using bd(1) q(2) by (intro divide_left_mono) auto
  also have "\<dots> = 2 powi (bitlen n - bitlen d + 1)"
    by (simp add: power_int_diff power_int_add)
  finally show "x < (2::rat) powi (bitlen n - bitlen d + 1)" .
qed


lemma toDouble_error: "\<bar>toDouble x - x\<bar> \<le> \<bar>x\<bar> / 2 ^ 53"
proof (cases "x = 0")
  case True
  then show ?thesis by (simp add: toDouble_def)
next
  case False
  then have pos: "0 < \<bar>x\<bar>" by simp
  obtain n d where nd: "quotient_of \<bar>x\<bar> = (n, d)"
    by (cases "quotient_of \<bar>x\<bar>")
  define e0 where "e0 = bitlen n - bitlen d - 53"
  define e where "e = (if \<bar>x\<bar> < 2 powi (e0 + 53) then e0 else e0 + 1)"
  define S where "S = \<bar>x\<bar> / 2 powi e"
  define m where "m = roundTiesToEven S"
  have td: "toDouble x = sgn x * of_int m * 2 powi e"
    using False nd by (simp add: toDouble_def Let_def e0_def e_def S_def m_def)
  have pe: "(0::rat) < 2 powi e" by simp
  from ratio_powi_bounds(1) [OF pos nd] have lo: "(2::rat) powi (e0 + 52) < \<bar>x\<bar>"
    by (simp add: e0_def algebra_simps)
  have ge: "(2::rat) powi (e + 52) \<le> \<bar>x\<bar>"
  proof (cases "\<bar>x\<bar> < 2 powi (e0 + 53)")
    case True
    with lo show ?thesis by (simp add: e_def)
  next
    case False
    then show ?thesis by (simp add: e_def algebra_simps)
  qed
  have "(2::rat) powi (e + 52) = 2 powi e * 2 ^ 52"
    by (simp add: power_int_add)
  with ge have ge': "(2::rat) powi e * 2 ^ 52 \<le> \<bar>x\<bar>" by simp
  have x: "x = sgn x * (S * 2 powi e)"
    by (simp add: S_def sgn_mult_abs mult_sgn_abs)
  have "toDouble x - x = sgn x * ((of_int m - S) * 2 powi e)"
    by (subst (2) x) (simp add: td algebra_simps)
  then have "\<bar>toDouble x - x\<bar> = \<bar>of_int m - S\<bar> * 2 powi e"
    using False by (simp add: abs_mult abs_sgn_eq)
  also have "\<dots> \<le> (1 / 2) * 2 powi e"
    using roundTiesToEven_close [of S] by (intro mult_right_mono) (simp_all add: m_def)
  also have "\<dots> \<le> \<bar>x\<bar> / 2 ^ 53"
    using ge' by (simp add: field_simps)
  finally show ?thesis .
qed

lemma Math_round_close:
  assumes "\<bar>y - x\<bar> < 1"
  shows "\<bar>Math_round y - round x\<bar> \<le> 1"
proof -
  have r: "Math_round y = round y"
    by (simp add: Math_round_def round_def)
  from assms have "x - 1 \<le> y" "y \<le> x + 1" by linarith+
  then have "round (x - 1) \<le> round y" "round y \<le> round (x + 1)"
    by (simp_all add: round_mono)
  moreover have "round (x - 1) = round x - 1" "round (x + 1) = round x + 1"
    unfolding round_def by linarith+
  ultimately show ?thesis
    unfolding r by linarith
qed

lemma double_product_close:
  fixes a M :: rat
  assumes a: "0 \<le> a" "a \<le> 2" and M: "\<bar>M\<bar> \<le> 2 ^ 49"
  shows "\<bar>toDouble (toDouble (1 - toDouble a) * M) - M * (1 - a)\<bar> < 1"
proof -
  define u :: rat where "u = 1 / 2 ^ 53"
  define q where "q = toDouble a"
  define t where "t = toDouble (1 - q)"
  define y where "y = toDouble (t * M)"
  have u: "0 < u" "u \<le> 1 / 8" by (simp_all add: u_def)
  have e: "\<bar>toDouble x - x\<bar> \<le> \<bar>x\<bar> * u" for x
    using toDouble_error [of x] by (simp add: u_def)
  have q: "\<bar>q - a\<bar> \<le> 2 * u"
  proof -
    have "\<bar>q - a\<bar> \<le> \<bar>a\<bar> * u" unfolding q_def by (rule e)
    also have "\<dots> \<le> 2 * u" using a u by (intro mult_right_mono) auto
    finally show ?thesis .
  qed
  have d1: "\<bar>1 - q\<bar> \<le> 2"
    using q a u by linarith
  have t1: "\<bar>t - (1 - q)\<bar> \<le> 2 * u"
  proof -
    have "\<bar>t - (1 - q)\<bar> \<le> \<bar>1 - q\<bar> * u" unfolding t_def by (rule e)
    also have "\<dots> \<le> 2 * u" using d1 u by (intro mult_right_mono) auto
    finally show ?thesis .
  qed
  have t2: "\<bar>t - (1 - a)\<bar> \<le> 4 * u"
    using t1 q by linarith
  have t3: "\<bar>t\<bar> \<le> 2"
    using t2 a u by linarith
  have y1: "\<bar>y - t * M\<bar> \<le> 2 * \<bar>M\<bar> * u"
  proof -
    have "\<bar>y - t * M\<bar> \<le> \<bar>t * M\<bar> * u" unfolding y_def by (rule e)
    also have "\<dots> = \<bar>t\<bar> * (\<bar>M\<bar> * u)" by (simp add: abs_mult)
    also have "\<dots> \<le> 2 * (\<bar>M\<bar> * u)" using t3 u by (intro mult_right_mono) auto
    finally show ?thesis by simp
  qed
  have y2: "\<bar>t * M - M * (1 - a)\<bar> \<le> 4 * \<bar>M\<bar> * u"
  proof -
    have "t * M - M * (1 - a) = M * (t - (1 - a))" by (simp add: algebra_simps)
    then have "\<bar>t * M - M * (1 - a)\<bar> = \<bar>M\<bar> * \<bar>t - (1 - a)\<bar>" by (simp add: abs_mult)
    also have "\<dots> \<le> \<bar>M\<bar> * (4 * u)" using t2 by (intro mult_left_mono) auto
    finally show ?thesis by simp
  qed
  have "\<bar>y - M * (1 - a)\<bar> \<le> 6 * \<bar>M\<bar> * u"
    using y1 y2 by linarith
  also have "\<dots> \<le> 6 * 2 ^ 49 * u"
    using M u by (intro mult_right_mono mult_left_mono) auto
  also have "\<dots> < 1" by (simp add: u_def)
  finally show ?thesis by (simp add: y_def t_def q_def)
qed

lemma speed_bonus_close:
  assumes "0 \<le> rt" and "0 < tlim" and "rt \<le> 2 * tlim" and "\<bar>mx\<bar> \<le> 2 ^ 49"
  shows "\<bar>max 0 (Math_round (num_mul (num_sub 1 (num_div (of_int rt) (of_int tlim))) (of_int mx)))
           - spec_speed_bonus mx rt tlim\<bar> \<le> 1"
proof -
  define a :: rat where "a = of_int rt / of_int tlim"
  have p: "(0::rat) \<le> of_int rt" "(0::rat) < of_int tlim"
    using assms(1,2) by simp_all
  have "(of_int rt :: rat) \<le> of_int (2 * tlim)"
    using assms(3) by (simp only: of_int_le_iff)
  then have "(of_int rt :: rat) \<le> 2 * of_int tlim"
    by simp
  with p have a: "0 \<le> a" "a \<le> 2"
    by (simp_all add: a_def divide_le_eq)
  have "(of_int \<bar>mx\<bar> :: rat) \<le> of_int (2 ^ 49)"
    using assms(4) by (simp only: of_int_le_iff)
  then have M: "\<bar>(of_int mx :: rat)\<bar> \<le> 2 ^ 49"
    by (simp only: of_int_abs of_int_power of_int_numeral)
  from Math_round_close [OF double_product_close [OF a M]]
  have "\<bar>Math_round (num_mul (num_sub 1 (num_div (of_int rt) (of_int tlim))) (of_int mx))
      - round (of_int mx * (1 - a))\<bar> \<le> 1"
    by (simp add: num_mul_def num_sub_def num_div_def a_def)
  then show ?thesis
    unfolding spec_speed_bonus_def a_def by linarith
qed

text \<open>
  The claim that the bonus is the specification's formula fails where the exact product is
  half a point away from two integers and the doubles fall just below it: 16500 ms into a
  30000 ms question with 50 bonus points, the exact value is \<open>22.5\<close>, which rounds to 23,
  and a correct answer is awarded a bonus of 22 and 122 points.
\<close>

lemma bonus_after_16500:
  "Math_round (num_mul (num_sub 1 (num_div 16500 30000)) 50) = 22"
  by code_simp

theorem recordAnswer_exact_formula_counterexample:
  "map_option (\<lambda>s. (basePointsPerQuestion s, speedBonusMax s, timePerQuestion s * 1000))
       (activeSessions exampleOpen ''ABC234'') = Some (100, 50, 30000)
   \<and> fst (recordAnswer exampleOpen ''ABC234'' ''u1'' ''b'' 17500) =
       Inr \<lparr>isCorrect = True, pointsAwarded = 122, speedBonus = 22, responseTimeMs = 16500,
            newScore = 122\<rparr>
   \<and> spec_speed_bonus 50 16500 30000 = 23"
  by (simp add: exampleOpen_eq example_defs handler_defs bonus_after_16500
      spec_speed_bonus_def round_def)

lemma recordAnswer_accepted_correct:
  assumes "recordAnswer w code oid opt now = (Inr r, w')"
    and "isCorrect r"
    and "activeSessions w code = Some s"
    and "getParticipant w code oid = Some p"
  shows "responseTimeMs r = now - (case questionStartTime s of None \<Rightarrow> 0 | Some t \<Rightarrow> t)
       \<and> speedBonus r = max 0 (Math_round (num_mul
            (num_sub 1 (num_div (of_int (responseTimeMs r))
               (of_int (timePerQuestion s * 1000))))
            (of_int (speedBonusMax s))))
       \<and> pointsAwarded r = basePointsPerQuestion s + speedBonus r
       \<and> map_option score (getParticipant w' code oid) = Some (score p + pointsAwarded r)
       \<and> responseTimeMs r \<le> timePerQuestion s * 1000 + 1000"
  using assms
  by (auto simp: recordAnswer_def getParticipant_def Let_def
      split: option.splits if_splits)

text \<open>
  C1 (amended). An accepted correct answer earns the speed bonus
  \<open>Math.round ((1 - responseTimeMs / timeLimitMs) * speedBonusMax)\<close> with the division,
  the subtraction and the multiplication carried out on doubles, raised to \<open>0\<close> when
  negative, and \<open>basePoints + speedBonus\<close> points, which are added to the participant's
  score. The response time is the submission time minus the question's start time and the
  time limit is \<open>timePerQuestion * 1000\<close>. For a response time that is not negative, a
  positive time limit and a maximal bonus of magnitude up to \<open>2 ^ 49\<close>, this bonus is
  within one point of the specification's formula over exact numbers.
\<close>

theorem recordAnswer_speed_bonus:
  assumes "recordAnswer w code oid opt now = (Inr r, w')"
    and "isCorrect r"
    and "activeSessions w code = Some s"
    and "getParticipant w code oid = Some p"
    and "timePerQuestion s \<noteq> 0"
  shows "responseTimeMs r = now - (case questionStartTime s of None \<Rightarrow> 0 | Some t \<Rightarrow> t)
       \<and> speedBonus r = max 0 (Math_round (num_mul
            (num_sub 1 (num_div (of_int (responseTimeMs r))
               (of_int (timePerQuestion s * 1000))))
            (of_int (speedBonusMax s))))
       \<and> pointsAwarded r = basePointsPerQuestion s + speedBonus r
       \<and> map_option score (getParticipant w' code oid) = Some (score p + pointsAwarded r)
       \<and> (0 \<le> responseTimeMs r \<and> 0 < timePerQuestion s \<and> \<bar>speedBonusMax s\<bar> \<le> 2 ^ 49 \<longrightarrow>
            \<bar>speedBonus r - spec_speed_bonus (speedBonusMax s) (responseTimeMs r)
               (timePerQuestion s * 1000)\<bar> \<le> 1)"
proof -
  note f = recordAnswer_accepted_correct [OF assms(1-4)]
  have "\<bar>speedBonus r - spec_speed_bonus (speedBonusMax s) (responseTimeMs r)
               (timePerQuestion s * 1000)\<bar> \<le> 1"
    if b: "0 \<le> responseTimeMs r" "0 < timePerQuestion s" "\<bar>speedBonusMax s\<bar> \<le> 2 ^ 49"
  proof -
    from b(2) f have "0 < timePerQuestion s * 1000"
      "responseTimeMs r \<le> 2 * (timePerQuestion s * 1000)"
      by linarith+
    from speed_bonus_close [OF b(1) this b(3)] f show ?thesis
      by simp
  qed
  with f show ?thesis by blast
qed

text \<open>
  Scenario A: 100 base points, 50 bonus points, a limit of 30000 ms and a correct answer
  after 2000 ms give a bonus of 47 and 147 points.
\<close>

theorem recordAnswer_speed_bonus_scenario_A:
  "map_option (\<lambda>s. (basePointsPerQuestion s, speedBonusMax s, timePerQuestion s * 1000))
       (activeSessions exampleOpen ''ABC234'') = Some (100, 50, 30000)
   \<and> fst (recordAnswer exampleOpen ''ABC234'' ''u1'' ''b'' 3000) =
       Inr \<lparr>isCorrect = True, pointsAwarded = 147, speedBonus = 47, responseTimeMs = 2000,
            newScore = 147\<rparr>
   \<and> map_option score
       (getParticipant (snd (recordAnswer exampleOpen ''ABC234'' ''u1'' ''b'' 3000))
          ''ABC234'' ''u1'') = Some 147
   \<and> \<bar>47 - spec_speed_bonus 50 2000 30000\<bar> \<le> 1"
proof -
  define s where "s = the (activeSessions exampleOpen ''ABC234'')"
  define p where "p = exParticipant ''u1'' ''Ann'' ''sock1'' 10"
  define r where "r = \<lparr>isCorrect = True, pointsAwarded = 147, speedBonus = 47,
    responseTimeMs = 2000, newScore = 147\<rparr>"
  define w' where "w' = snd (recordAnswer exampleOpen ''ABC234'' ''u1'' ''b'' 3000)"
  have s: "activeSessions exampleOpen ''ABC234'' = Some s"
    by (simp add: s_def exampleOpen_eq)
  have p: "getParticipant exampleOpen ''ABC234'' ''u1'' = Some p"
    by (simp add: p_def exampleOpen_eq getParticipant_def)
  have r: "fst (recordAnswer exampleOpen ''ABC234'' ''u1'' ''b'' 3000) = Inr r"
    by (simp add: r_def exampleOpen_eq example_defs handler_defs bonus_after_2000)
  then have ra: "recordAnswer exampleOpen ''ABC234'' ''u1'' ''b'' 3000 = (Inr r, w')"
    by (simp add: w'_def prod_eq_iff)
  have c: "isCorrect r"
    by (simp add: r_def)
  have cfg: "basePointsPerQuestion s = 100 \<and> speedBonusMax s = 50 \<and> timePerQuestion s = 30
      \<and> score p = 0"
    by (simp add: s_def p_def exampleOpen_eq example_defs handler_defs)
  then have t: "timePerQuestion s \<noteq> 0"
    by simp
  have v: "pointsAwarded r = 147 \<and> speedBonus r = 47 \<and> responseTimeMs r = 2000"
    by (simp add: r_def)
  from recordAnswer_speed_bonus [OF ra c s p t] cfg v
  have "map_option score (getParticipant w' ''ABC234'' ''u1'') = Some 147
      \<and> \<bar>47 - spec_speed_bonus 50 2000 30000\<bar> \<le> 1"
    by simp
  with s r cfg show ?thesis
    by (simp add: w'_def r_def)
qed

text \<open>
  The claim that an answer is judged correct only if the selection matches the correct-answer
  set as a whole fails on a question with two correct options: on the example's second
  question (correct options \<open>a\<close> and \<open>c\<close>), selecting \<open>a\<close> alone is judged correct and
  earns full points.
\<close>

theorem recordAnswer_whole_set_counterexample:
  "Option.bind (activeSessions exampleSecond ''ABC234'')
       (\<lambda>s. array_get (questions s) (currentQuestionIndex s)) = Some (exampleQuestions ! 1)
   \<and> correct_answers (exampleQuestions ! 1) = [''a'', ''c'']
   \<and> \<not> spec_matches_whole_set ''a'' (exampleQuestions ! 1)
   \<and> fst (recordAnswer exampleSecond ''ABC234'' ''u1'' ''a'' 42000) =
       Inr \<lparr>isCorrect = True, pointsAwarded = 147, speedBonus = 47, responseTimeMs = 2000,
            newScore = 294\<rparr>"
  by (simp add: exampleSecond_eq example_defs handler_defs bonus_after_2000
      spec_matches_whole_set_def)

text \<open>
  C2 (amended). An accepted answer is judged correct exactly when the selected option is a
  member of the current question's \<open>correct_answers\<close>; an answer judged incorrect yields 0
  points and 0 speed bonus and leaves the participant's score and correct-answer count
  unchanged.
\<close>

theorem recordAnswer_correct_iff_member:
  assumes "recordAnswer w code oid opt now = (Inr r, w')"
    and "activeSessions w code = Some s"
    and "array_get (questions s) (currentQuestionIndex s) = Some q"
    and "getParticipant w code oid = Some p"
  shows "(isCorrect r \<longleftrightarrow> opt \<in> set (correct_answers q))
       \<and> (\<not> isCorrect r \<longrightarrow>
            pointsAwarded r = 0 \<and> speedBonus r = 0
            \<and> map_option score (getParticipant w' code oid) = Some (score p)
            \<and> map_option correctAnswers (getParticipant w' code oid) = Some (correctAnswers p))"
  using assms
  by (auto simp: recordAnswer_def getParticipant_def Let_def
      split: option.splits if_splits)

text \<open>Scenario B: with the same configuration a wrong answer earns nothing.\<close>

theorem recordAnswer_correct_iff_member_scenario_B:
  "fst (recordAnswer exampleOpen ''ABC234'' ''u1'' ''c'' 3000) =
       Inr \<lparr>isCorrect = False, pointsAwarded = 0, speedBonus = 0, responseTimeMs = 2000,
            newScore = 0\<rparr>
   \<and> map_option score (getParticipant exampleOpen ''ABC234'' ''u1'') = Some 0
   \<and> map_option score
       (getParticipant (snd (recordAnswer exampleOpen ''ABC234'' ''u1'' ''c'' 3000))
          ''ABC234'' ''u1'') = Some 0"
proof -
  define s where "s = the (activeSessions exampleOpen ''ABC234'')"
  define p where "p = exParticipant ''u1'' ''Ann'' ''sock1'' 10"
  define r where "r = \<lparr>isCorrect = False, pointsAwarded = 0, speedBonus = 0,
    responseTimeMs = 2000, newScore = 0\<rparr>"
  define w' where "w' = snd (recordAnswer exampleOpen ''ABC234'' ''u1'' ''c'' 3000)"
  have s: "activeSessions exampleOpen ''ABC234'' = Some s"
    by (simp add: s_def exampleOpen_eq)
  have q: "array_get (questions s) (currentQuestionIndex s) = Some (exampleQuestions ! 0)"
    by (simp add: s_def exampleOpen_eq example_defs handler_defs)
  have p: "getParticipant exampleOpen ''ABC234'' ''u1'' = Some p"
    by (simp add: p_def exampleOpen_eq getParticipant_def)
  have r: "fst (recordAnswer exampleOpen ''ABC234'' ''u1'' ''c'' 3000) = Inr r"
    by (simp add: r_def exampleOpen_eq example_defs handler_defs)
  then have ra: "recordAnswer exampleOpen ''ABC234'' ''u1'' ''c'' 3000 = (Inr r, w')"
    by (simp add: w'_def prod_eq_iff)
  have "\<not> isCorrect r \<and> score p = 0"
    by (simp add: r_def p_def example_defs handler_defs)
  with recordAnswer_correct_iff_member [OF ra s q p]
  have "map_option score (getParticipant w' ''ABC234'' ''u1'') = Some 0"
    by simp
  with r p show ?thesis
    by (simp add: w'_def r_def p_def example_defs handler_defs)
qed

subsection \<open>Late answers\<close>

text \<open>
  The claim that every submission later than the time limit plus the tolerance fails with
  the late-answer error does not hold for a participant who has already answered: the
  duplicate check comes first. Ann, who answered the first question, submits again 31500 ms
  after its start (the limit plus tolerance is 31000 ms) and gets the duplicate error.
\<close>

theorem recordAnswer_late_counterexample:
  "map_option (\<lambda>s. (questionStartTime s, timePerQuestion s * 1000 + 1000))
       (activeSessions exampleAnswered ''ABC234'') = Some (Some 1000, 31000)
   \<and> recordAnswer exampleAnswered ''ABC234'' ''u1'' ''a'' 32500 =
       (Inl AlreadyAnswered, exampleAnswered)"
  by (simp add: exampleAnswered_eq example_defs handler_defs)

text \<open>
  C4 (amended). A submission whose response latency exceeds the question's time limit plus
  the 1000 ms tolerance is rejected and changes nothing, whatever the state of the question
  timer: \<open>recordAnswer\<close> returns the late-answer error for a registered participant who has
  not answered the current question (and the duplicate-answer error for one who has), and
  the \<open>answer:submit\<close> handler replies an error and leaves the whole state as it was.
\<close>

theorem recordAnswer_late_rejected:
  assumes "activeSessions w code = Some s"
    and "now - (case questionStartTime s of None \<Rightarrow> 0 | Some t \<Rightarrow> t)
           > timePerQuestion s * 1000 + 1000"
  shows "(\<forall>p. getParticipant w code oid = Some p \<longrightarrow>
            recordAnswer w code oid opt now =
              (Inl (if hasAnsweredCurrent p then AlreadyAnswered else TimeExpired), w))
       \<and> (\<exists>e. recordAnswer w code oid opt now = (Inl e, w))
       \<and> (\<exists>e. answer_submit w sock code qi opt now = (Inl e, w))"
  using assms
  by (auto simp: recordAnswer_def answer_submit_def getSession_def getParticipant_def Let_def
      split: option.splits if_splits)

text \<open>Scenario C: an answer 31500 ms after the question started is late.\<close>

theorem recordAnswer_late_rejected_scenario_C:
  "recordAnswer exampleOpen ''ABC234'' ''u1'' ''b'' 32500 = (Inl TimeExpired, exampleOpen)
   \<and> fst (answer_submit exampleOpen ''sock1'' ''ABC234'' 0 ''b'' 32500) = Inl TimeExpired
   \<and> snd (answer_submit exampleOpen ''sock1'' ''ABC234'' 0 ''b'' 32500) = exampleOpen"
proof -
  define s where "s = the (activeSessions exampleOpen ''ABC234'')"
  define p where "p = exParticipant ''u1'' ''Ann'' ''sock1'' 10"
  have s: "activeSessions exampleOpen ''ABC234'' = Some s"
    by (simp add: s_def exampleOpen_eq)
  have late: "32500 - (case questionStartTime s of None \<Rightarrow> 0 | Some t \<Rightarrow> t)
      > timePerQuestion s * 1000 + 1000"
    by (simp add: s_def exampleOpen_eq example_defs handler_defs)
  have p: "getParticipant exampleOpen ''ABC234'' ''u1'' = Some p"
    by (simp add: p_def exampleOpen_eq getParticipant_def)
  have np: "\<not> hasAnsweredCurrent p"
    by (simp add: p_def example_defs handler_defs)
  from recordAnswer_late_rejected [OF s late, of "''u1''" "''b''" "''sock1''" 0] p np
  have ra: "recordAnswer exampleOpen ''ABC234'' ''u1'' ''b'' 32500 = (Inl TimeExpired, exampleOpen)"
    and "\<exists>e. answer_submit exampleOpen ''sock1'' ''ABC234'' 0 ''b'' 32500 = (Inl e, exampleOpen)"
    by auto
  moreover have "fst (answer_submit exampleOpen ''sock1'' ''ABC234'' 0 ''b'' 32500) = Inl TimeExpired"
    using ra by (simp add: answer_submit_def getSession_def exampleOpen_eq newSession_def)
  ultimately show ?thesis by auto
qed

subsection \<open>Sessions along a run of commands\<close>

lemma map_get_map_set: "map_get (map_set k v xs) k' = (if k' = k then Some v else map_get xs k')"
  by simp

lemma map_get_map_values:
  "map_get (map (\<lambda>(k, p). (k, f p)) xs) k = map_option f (map_get xs k)"
  by (induction xs) auto

lemma session_evolves_refl [simp]: "session_evolves s s"
  by (simp add: session_evolves_def)

lemma session_evolves_trans:
  assumes "session_evolves s s'" and "session_evolves s' s''"
  shows "session_evolves s s''"
proof -
  have q: "questions s'' = questions s"
    using assms by (simp add: session_evolves_def)
  have i: "currentQuestionIndex s \<le> currentQuestionIndex s'"
    "currentQuestionIndex s' \<le> currentQuestionIndex s''"
    using assms by (simp_all add: session_evolves_def)
  have b: "currentQuestionIndex s \<le> int (length (questions s)) - 1 \<longrightarrow>
      currentQuestionIndex s'' \<le> int (length (questions s)) - 1"
    using assms by (simp add: session_evolves_def)
  have p: "\<exists>p''. map_get (participants s'') oid = Some p'' \<and>
       (currentQuestionIndex s'' = currentQuestionIndex s \<and> hasAnsweredCurrent p \<longrightarrow>
          hasAnsweredCurrent p'')"
    if "map_get (participants s) oid = Some p" for oid p
  proof -
    from assms(1) that obtain p' where p': "map_get (participants s') oid = Some p'"
      "currentQuestionIndex s' = currentQuestionIndex s \<and> hasAnsweredCurrent p \<longrightarrow>
         hasAnsweredCurrent p'"
      unfolding session_evolves_def by blast
    from assms(2) p'(1) obtain p'' where p'': "map_get (participants s'') oid = Some p''"
      "currentQuestionIndex s'' = currentQuestionIndex s' \<and> hasAnsweredCurrent p' \<longrightarrow>
         hasAnsweredCurrent p''"
      unfolding session_evolves_def by blast
    have "hasAnsweredCurrent p''"
      if "currentQuestionIndex s'' = currentQuestionIndex s" "hasAnsweredCurrent p"
    proof -
      from that(1) i have "currentQuestionIndex s' = currentQuestionIndex s"
        "currentQuestionIndex s'' = currentQuestionIndex s'" by linarith+
      with p'(2) p''(2) that(2) show ?thesis by simp
    qed
    with p''(1) show ?thesis by blast
  qed
  show ?thesis
    unfolding session_evolves_def using q i b p by auto
qed

lemma session_evolves_set_participant:
  assumes "\<And>p. map_get (participants s) oid = Some p \<Longrightarrow> hasAnsweredCurrent p \<Longrightarrow>
             hasAnsweredCurrent p'"
  shows "session_evolves s (s\<lparr>participants := map_set oid p' (participants s)\<rparr>)"
  unfolding session_evolves_def using assms
  by (auto simp del: map_get_map_set_same map_get_map_set_other simp add: map_get_map_set)

lemma recordAnswer_evolves:
  assumes "activeSessions w c = Some s"
  shows "\<exists>s'. activeSessions (snd (recordAnswer w code oid opt now)) c = Some s' \<and>
     session_evolves s s'"
  using assms
  by (auto simp: recordAnswer_def Let_def split: option.splits
      intro!: session_evolves_set_participant)

lemma answer_submit_snd:
  "snd (answer_submit w sock code qi opt now) = w \<or>
   snd (answer_submit w sock code qi opt now) =
     snd (recordAnswer w code (the (socketOderId w sock)) opt now)"
proof (cases "recordAnswer w code (the (socketOderId w sock)) opt now")
  case (Pair res w')
  then show ?thesis
    by (cases res) (auto simp: answer_submit_def split: option.splits)
qed

lemma answer_submit_evolves:
  assumes "activeSessions w c = Some s"
  shows "\<exists>s'. activeSessions (snd (answer_submit w sock code qi opt now)) c = Some s' \<and>
     session_evolves s s'"
  using answer_submit_snd [of w sock code qi opt now] recordAnswer_evolves [OF assms] assms
  by (metis session_evolves_refl)

lemma updateParticipantConnection_evolves:
  assumes "activeSessions w c = Some s"
  shows "\<exists>s'. activeSessions (snd (updateParticipantConnection w code oid conn sock now)) c
       = Some s' \<and> session_evolves s s'"
  using assms
  by (auto simp: updateParticipantConnection_def Let_def split: option.splits
      intro!: session_evolves_set_participant)

lemma bindSocket_sessions [simp]: "activeSessions (bindSocket w sock code oid) = activeSessions w"
  by (simp add: bindSocket_def)

lemma session_join_evolves:
  assumes "activeSessions w c = Some s"
  shows "\<exists>s'. activeSessions (snd (session_join w sock code oid name photo now)) c = Some s' \<and>
     session_evolves s s'"
proof (cases "snd (session_join w sock code oid name photo now) = w")
  case True
  with assms show ?thesis by simp
next
  case False
  then consider
    (re) "snd (session_join w sock code oid name photo now) =
        bindSocket (snd (updateParticipantConnection w code oid True (Some sock) now)) sock code oid"
    | (new) s0 where "activeSessions w code = Some s0" "map_get (participants s0) oid = None"
       "snd (session_join w sock code oid name photo now) =
        bindSocket (snd (addParticipant w code
           \<lparr>pd_oderId = oid, pd_userName = name, pd_userPhoto = photo, pd_socketId = sock\<rparr> now))
          sock code oid"
    by (auto simp: session_join_def getSession_def getParticipant_def Let_def
        split: option.splits if_splits)
  then show ?thesis
  proof cases
    case re
    with updateParticipantConnection_evolves [OF assms] show ?thesis by simp
  next
    case new
    show ?thesis
      using new assms
      by (auto simp: addParticipant_def intro!: session_evolves_set_participant)
  qed
qed

lemma clearTimeout_sessions [simp]: "activeSessions (clearTimeout w h) = activeSessions w"
  by (simp add: clearTimeout_def)

lemma setTimeout_sessions [simp]: "activeSessions (snd (setTimeout w a)) = activeSessions w"
  by (simp add: setTimeout_def)

lemma session_evolves_timer [simp]: "session_evolves s (s\<lparr>questionTimer := t\<rparr>)"
  by (simp add: session_evolves_def)

lemma session_evolves_status [simp]: "session_evolves s (s\<lparr>status := t\<rparr>)"
  by (simp add: session_evolves_def)

lemma setQuestionTimer_evolves:
  assumes "activeSessions w c = Some s"
  shows "\<exists>s'. activeSessions (setQuestionTimer w code cb) c = Some s' \<and> session_evolves s s'"
  using assms
  by (auto simp: setQuestionTimer_def Let_def setTimeout_def split: option.splits prod.splits)

lemma clearQuestionTimer_evolves:
  assumes "activeSessions w c = Some s"
  shows "\<exists>s'. activeSessions (clearQuestionTimer w code) c = Some s' \<and> session_evolves s s'"
  using assms
  by (auto simp: clearQuestionTimer_def split: option.splits)

lemma handleQuestionEnd_sessions [simp]:
  "activeSessions (handleQuestionEnd w code) = activeSessions w"
  by (simp add: handleQuestionEnd_def split: option.splits)

lemma endSession_evolves:
  assumes "activeSessions w c = Some s"
  shows "\<exists>s'. activeSessions (snd (endSession w code)) c = Some s' \<and> session_evolves s s'"
  using assms
  by (auto simp: endSession_def Let_def split: option.splits)

lemma handleQuizComplete_evolves:
  assumes "activeSessions w c = Some s"
  shows "\<exists>s'. activeSessions (handleQuizComplete w code) c = Some s' \<and> session_evolves s s'"
  using assms endSession_evolves [OF assms, of code]
  by (auto simp: handleQuizComplete_def split: option.splits)

lemma advanceQuestion_evolves:
  assumes "activeSessions w c = Some s"
    and "\<And>s0. activeSessions w code = Some s0 \<Longrightarrow>
           currentQuestionIndex s0 < int (length (questions s0)) - 1"
  shows "\<exists>s'. activeSessions (snd (advanceQuestion w code now)) c = Some s' \<and>
     session_evolves s s'"
  using assms
  by (auto simp: advanceQuestion_def Let_def session_evolves_def map_get_map_values
      split: option.splits)

lemma question_next_evolves:
  assumes "activeSessions w c = Some s"
  shows "\<exists>s'. activeSessions (snd (question_next w sock code now)) c = Some s' \<and>
     session_evolves s s'"
proof (cases "snd (question_next w sock code now) = w")
  case True
  with assms show ?thesis by simp
next
  case False
  then obtain s0 where s0: "activeSessions w code = Some s0"
    "currentQuestionIndex s0 < int (length (questions s0)) - 1"
    "snd (question_next w sock code now) = snd (advanceQuestion w code now) \<or>
     snd (question_next w sock code now) =
       setQuestionTimer (snd (advanceQuestion w code now)) code (QuestionEnd code)"
    by (auto simp: question_next_def getSession_def Let_def split: option.splits if_splits)
  from advanceQuestion_evolves [OF assms, of code now] s0(1,2)
  obtain s1 where s1: "activeSessions (snd (advanceQuestion w code now)) c = Some s1"
    "session_evolves s s1" by auto
  from setQuestionTimer_evolves [OF s1(1), of code "QuestionEnd code"]
  obtain s2 where "activeSessions (setQuestionTimer (snd (advanceQuestion w code now)) code
      (QuestionEnd code)) c = Some s2" "session_evolves s1 s2" by auto
  with s1 s0(3) show ?thesis
    by (auto intro: session_evolves_trans)
qed

lemma question_skip_evolves:
  assumes "activeSessions w c = Some s"
  shows "\<exists>s'. activeSessions (snd (question_skip w sock code)) c = Some s' \<and>
     session_evolves s s'"
  using assms clearQuestionTimer_evolves [OF assms, of code]
  by (auto simp: question_skip_def getSession_def split: option.splits)

lemma session_end_evolves:
  assumes "activeSessions w c = Some s"
  shows "\<exists>s'. activeSessions (snd (session_end w sock code)) c = Some s' \<and>
     session_evolves s s'"
  using assms handleQuizComplete_evolves [OF assms, of code]
  by (auto simp: session_end_def getSession_def split: option.splits)

lemma step_evolves:
  assumes "activeSessions w c = Some s"
  shows "\<exists>s'. activeSessions (step w cmd) c = Some s' \<and> session_evolves s s'"
proof (cases cmd)
  case (Pair k now)
  then show ?thesis
    using session_join_evolves [OF assms] answer_submit_evolves [OF assms]
      question_next_evolves [OF assms] question_skip_evolves [OF assms]
      session_end_evolves [OF assms]
    by (cases k) simp_all
qed

lemma run_evolves:
  assumes "activeSessions w c = Some s"
  shows "\<exists>s'. activeSessions (run w cs) c = Some s' \<and> session_evolves s s'"
  using assms
proof (induction cs arbitrary: w s)
  case Nil
  then show ?case by (simp add: run_def)
next
  case (Cons cmd cs)
  from step_evolves [OF Cons.prems, of cmd]
  obtain s1 where s1: "activeSessions (step w cmd) c = Some s1" "session_evolves s s1"
    by auto
  from Cons.IH [OF s1(1)] obtain s2 where
    "activeSessions (run (step w cmd) cs) c = Some s2" "session_evolves s1 s2" by auto
  with s1(2) show ?case
    by (auto simp: run_def intro: session_evolves_trans)
qed

lemma run_append: "run w (cs @ ds) = run (run w cs) ds"
  by (simp add: run_def)


text \<open>
  C7. Over every sequence of commands (join, answer, advance, skip, end) processed by the
  handlers, a session's question index never decreases and never exceeds
  \<open>length questions - 1\<close>: starting from a session whose index is within that bound (as
  a new session's \<open>-1\<close> is), the session is still registered with the same questions after
  any commands \<open>cs\<close> and after any further commands \<open>ds\<close>, and its index after \<open>cs\<close> is
  at least the initial one, at most the one after \<open>cs @ ds\<close>, which is at most
  \<open>length questions - 1\<close>.
\<close>

theorem run_index_monotone_bounded:
  assumes "activeSessions w code = Some s"
    and "currentQuestionIndex s \<le> int (length (questions s)) - 1"
  shows "\<exists>s1 s2. activeSessions (run w cs) code = Some s1
       \<and> activeSessions (run w (cs @ ds)) code = Some s2
       \<and> questions s1 = questions s \<and> questions s2 = questions s
       \<and> currentQuestionIndex s \<le> currentQuestionIndex s1
       \<and> currentQuestionIndex s1 \<le> currentQuestionIndex s2
       \<and> currentQuestionIndex s2 \<le> int (length (questions s)) - 1"
proof -
  from run_evolves [OF assms(1), of cs] obtain s1 where
    s1: "activeSessions (run w cs) code = Some s1" "session_evolves s s1" by auto
  from run_evolves [OF s1(1), of ds] obtain s2 where
    s2: "activeSessions (run w (cs @ ds)) code = Some s2" "session_evolves s1 s2"
    by (auto simp: run_append)
  from s1(2) s2(2) assms(2) have "questions s1 = questions s \<and> questions s2 = questions s
       \<and> currentQuestionIndex s \<le> currentQuestionIndex s1
       \<and> currentQuestionIndex s1 \<le> currentQuestionIndex s2
       \<and> currentQuestionIndex s2 \<le> int (length (questions s)) - 1"
    by (simp add: session_evolves_def)
  with s1(1) s2(1) show ?thesis by blast
qed

text \<open>
  The example run: two joins, the first question, two answers, then the second question and
  an attempt to advance past it.
\<close>

lemma exampleCreated_eq:
  "exampleCreated =
    \<lparr>activeSessions = [''ABC234'' \<mapsto> newSession ''ABC234'' exampleData 0],
      pendingTimers = [], nextTimer = 0,
      socketOderId = Map.empty, socketSessionCode = Map.empty\<rparr>"
  by (simp add: exampleCreated_def emptyWorld_def createSession_def)

lemma run_example_tied:
  "run exampleCreated
     [(Join ''sock1'' ''ABC234'' ''u1'' ''Ann'' None, 10),
      (Join ''sock2'' ''ABC234'' ''u2'' ''Bob'' None, 20),
      (Next ''sockH'' ''ABC234'', 1000),
      (Answer ''sock1'' ''ABC234'' 0 ''b'', 3000),
      (Answer ''sock2'' ''ABC234'' 0 ''b'', 3000)] = exampleTied"
  by (simp add: run_def exampleTied_def exampleAnswered_def exampleOpen_def exampleLobby_def)

lemma question_next_at_last:
  "question_next exampleSecond ''sockH'' ''ABC234'' 80000 = (Inl NoMoreQuestions, exampleSecond)"
  by (simp add: exampleSecond_eq example_defs question_next_def getSession_def newSession_def)

lemma run_example_second:
  "run exampleTied [(Next ''sockH'' ''ABC234'', 40000), (Next ''sockH'' ''ABC234'', 80000)]
     = exampleSecond"
  by (simp add: run_def exampleSecond_def [symmetric] question_next_at_last)

theorem run_index_monotone_bounded_example:
  "map_option (\<lambda>s. (currentQuestionIndex s, int (length (questions s)) - 1))
       (activeSessions exampleCreated ''ABC234'') = Some (- 1, 1)
   \<and> map_option currentQuestionIndex
       (activeSessions
         (run exampleCreated
            [(Join ''sock1'' ''ABC234'' ''u1'' ''Ann'' None, 10),
             (Join ''sock2'' ''ABC234'' ''u2'' ''Bob'' None, 20),
             (Next ''sockH'' ''ABC234'', 1000),
             (Answer ''sock1'' ''ABC234'' 0 ''b'', 3000),
             (Answer ''sock2'' ''ABC234'' 0 ''b'', 3000)]) ''ABC234'') = Some 0
   \<and> map_option currentQuestionIndex
       (activeSessions
         (run exampleCreated
            ([(Join ''sock1'' ''ABC234'' ''u1'' ''Ann'' None, 10),
              (Join ''sock2'' ''ABC234'' ''u2'' ''Bob'' None, 20),
              (Next ''sockH'' ''ABC234'', 1000),
              (Answer ''sock1'' ''ABC234'' 0 ''b'', 3000),
              (Answer ''sock2'' ''ABC234'' 0 ''b'', 3000)] @
             [(Next ''sockH'' ''ABC234'', 40000), (Next ''sockH'' ''ABC234'', 80000)]))
         ''ABC234'') = Some 1"
proof -
  define s where "s = newSession ''ABC234'' exampleData 0"
  have s: "activeSessions exampleCreated ''ABC234'' = Some s"
    by (simp add: s_def exampleCreated_eq)
  have b: "currentQuestionIndex s = - 1 \<and> int (length (questions s)) - 1 = 1"
    by (simp add: s_def newSession_def example_defs)
  then have b': "currentQuestionIndex s \<le> int (length (questions s)) - 1"
    by simp
  have i1: "map_option currentQuestionIndex (activeSessions exampleTied ''ABC234'') = Some 0"
    by (simp add: exampleTied_eq)
  have i2: "map_option currentQuestionIndex (activeSessions exampleSecond ''ABC234'') = Some 1"
    by (simp add: exampleSecond_eq)
  from run_index_monotone_bounded [OF s b',
      of "[(Join ''sock1'' ''ABC234'' ''u1'' ''Ann'' None, 10),
             (Join ''sock2'' ''ABC234'' ''u2'' ''Bob'' None, 20),
             (Next ''sockH'' ''ABC234'', 1000),
             (Answer ''sock1'' ''ABC234'' 0 ''b'', 3000),
             (Answer ''sock2'' ''ABC234'' 0 ''b'', 3000)]"
         "[(Next ''sockH'' ''ABC234'', 40000), (Next ''sockH'' ''ABC234'', 80000)]"]
  show ?thesis
    using s b i1 i2 by (simp only: run_append run_example_tied run_example_second) simp
qed

subsection \<open>One answer per participant and question\<close>

lemma answer_submit_accepted:
  assumes "answer_submit w sock code qi opt now = (Inr u, w')"
  shows "\<exists>oid s' p'. socketOderId w sock = Some oid \<and> oid \<noteq> []
     \<and> activeSessions w' code = Some s' \<and> currentQuestionIndex s' = qi
     \<and> map_get (participants s') oid = Some p' \<and> hasAnsweredCurrent p'"
proof -
  from assms obtain oid s r where
    oid: "socketOderId w sock = Some oid" "oid \<noteq> []"
    and s: "activeSessions w code = Some s" "currentQuestionIndex s = qi"
    and r: "recordAnswer w code oid opt now = (Inr r, w')"
    by (auto simp: answer_submit_def getSession_def
        split: option.splits if_splits sum.splits prod.splits)
  from r s have "\<exists>s' p'. activeSessions w' code = Some s' \<and> currentQuestionIndex s' = qi
     \<and> map_get (participants s') oid = Some p' \<and> hasAnsweredCurrent p'"
    by (auto simp: recordAnswer_def Let_def split: option.splits if_splits)
  with oid show ?thesis by blast
qed

text \<open>
  The claim that a second submission for the same question returns the duplicate-answer
  error fails once the host has advanced: Ann's answer to question 0 was accepted, the
  second question has been opened, and her next submission for question 0 gets the
  question-changed error.
\<close>

theorem second_answer_error_counterexample:
  "answer_submit exampleOpen ''sock1'' ''ABC234'' 0 ''b'' 3000 = (Inr (), exampleAnswered)
   \<and> run exampleAnswered
        [(Answer ''sock2'' ''ABC234'' 0 ''b'', 3000), (Next ''sockH'' ''ABC234'', 40000)]
       = exampleSecond
   \<and> answer_submit exampleSecond ''sock1'' ''ABC234'' 0 ''c'' 41000
       = (Inl QuestionChanged, exampleSecond)"
proof -
  have "fst (answer_submit exampleOpen ''sock1'' ''ABC234'' 0 ''b'' 3000) = Inr ()"
    by (simp add: exampleOpen_eq example_defs handler_defs bonus_after_2000)
  then have "answer_submit exampleOpen ''sock1'' ''ABC234'' 0 ''b'' 3000
      = (Inr (), exampleAnswered)"
    by (simp add: exampleAnswered_def prod_eq_iff)
  moreover have "run exampleAnswered
        [(Answer ''sock2'' ''ABC234'' 0 ''b'', 3000), (Next ''sockH'' ''ABC234'', 40000)]
       = exampleSecond"
    by (simp add: run_def exampleSecond_def exampleTied_def)
  moreover have "answer_submit exampleSecond ''sock1'' ''ABC234'' 0 ''c'' 41000
       = (Inl QuestionChanged, exampleSecond)"
    by (simp add: answer_submit_def getSession_def exampleSecond_eq)
  ultimately show ?thesis by blast
qed

text \<open>
  C3 (amended). At most one answer per participant and question is accepted. Once a
  participant's answer to question \<open>qi\<close> has been accepted, then after any further commands
  \<open>cs\<close> a submission for \<open>qi\<close> by the same participant (from any socket bound to that
  participant, with any option, at any time) is rejected and leaves the whole state, hence
  the participant's score, correctAnswers and totalAnswered, unchanged: with the
  duplicate-answer error while \<open>qi\<close> is still the current question, and with the
  question-changed error once the host has advanced.
\<close>

theorem second_answer_rejected:
  assumes "answer_submit w sock code qi opt now = (Inr (), w')"
    and "socketOderId w sock = Some oid"
    and "socketOderId (run w' cs) sock2 = Some oid"
  shows "\<exists>s''. activeSessions (run w' cs) code = Some s''
       \<and> answer_submit (run w' cs) sock2 code qi opt2 now2 =
           (Inl (if currentQuestionIndex s'' = qi then AlreadyAnswered else QuestionChanged),
            run w' cs)
       \<and> (currentQuestionIndex s'' = qi \<longrightarrow>
            recordAnswer (run w' cs) code oid opt2 now2 = (Inl AlreadyAnswered, run w' cs))"
proof -
  from answer_submit_accepted [OF assms(1)] assms(2) obtain s' p' where
    ne: "oid \<noteq> []" and s': "activeSessions w' code = Some s'" "currentQuestionIndex s' = qi"
    and p': "map_get (participants s') oid = Some p'" "hasAnsweredCurrent p'"
    by auto
  from run_evolves [OF s'(1), of cs] obtain s'' where
    s'': "activeSessions (run w' cs) code = Some s''" "session_evolves s' s''"
    by blast
  have dup: "recordAnswer (run w' cs) code oid opt2 now2 = (Inl AlreadyAnswered, run w' cs)"
    if "currentQuestionIndex s'' = qi"
  proof -
    from s''(2) p' s'(2) that obtain p'' where
      "map_get (participants s'') oid = Some p''" "hasAnsweredCurrent p''"
      unfolding session_evolves_def by blast
    with s''(1) show ?thesis
      by (simp add: recordAnswer_def)
  qed
  have "answer_submit (run w' cs) sock2 code qi opt2 now2 =
      (Inl (if currentQuestionIndex s'' = qi then AlreadyAnswered else QuestionChanged),
       run w' cs)"
  proof (cases "currentQuestionIndex s'' = qi")
    case True
    with dup s''(1) assms(3) ne show ?thesis
      by (simp add: answer_submit_def getSession_def)
  next
    case False
    with s''(1) assms(3) ne show ?thesis
      by (simp add: answer_submit_def getSession_def)
  qed
  with s''(1) dup show ?thesis by blast
qed

text \<open>
  Ann's second submission for question 0: refused as a duplicate while the question is
  open, and as a changed question after the host has advanced.
\<close>

theorem second_answer_rejected_example:
  "answer_submit exampleOpen ''sock1'' ''ABC234'' 0 ''b'' 3000 = (Inr (), exampleAnswered)
   \<and> run exampleAnswered [(Answer ''sock2'' ''ABC234'' 0 ''b'', 3000)] = exampleTied
   \<and> answer_submit exampleTied ''sock1'' ''ABC234'' 0 ''c'' 5000
       = (Inl AlreadyAnswered, exampleTied)
   \<and> recordAnswer exampleTied ''ABC234'' ''u1'' ''c'' 5000 = (Inl AlreadyAnswered, exampleTied)
   \<and> run exampleAnswered
        [(Answer ''sock2'' ''ABC234'' 0 ''b'', 3000), (Next ''sockH'' ''ABC234'', 40000)]
       = exampleSecond
   \<and> answer_submit exampleSecond ''sock1'' ''ABC234'' 0 ''c'' 41000
       = (Inl QuestionChanged, exampleSecond)"
proof -
  have "fst (answer_submit exampleOpen ''sock1'' ''ABC234'' 0 ''b'' 3000) = Inr ()"
    by (simp add: exampleOpen_eq example_defs handler_defs bonus_after_2000)
  then have a: "answer_submit exampleOpen ''sock1'' ''ABC234'' 0 ''b'' 3000
      = (Inr (), exampleAnswered)"
    by (simp add: exampleAnswered_def prod_eq_iff)
  have o: "socketOderId exampleOpen ''sock1'' = Some ''u1''"
    by (simp add: exampleOpen_eq)
  have r1: "run exampleAnswered [(Answer ''sock2'' ''ABC234'' 0 ''b'', 3000)] = exampleTied"
    by (simp add: run_def exampleTied_def)
  have r2: "run exampleAnswered
        [(Answer ''sock2'' ''ABC234'' 0 ''b'', 3000), (Next ''sockH'' ''ABC234'', 40000)]
       = exampleSecond"
    by (simp add: run_def exampleSecond_def exampleTied_def)
  have o1: "socketOderId (run exampleAnswered [(Answer ''sock2'' ''ABC234'' 0 ''b'', 3000)])
      ''sock1'' = Some ''u1''"
    by (simp add: r1 exampleTied_eq)
  have o2: "socketOderId (run exampleAnswered
        [(Answer ''sock2'' ''ABC234'' 0 ''b'', 3000), (Next ''sockH'' ''ABC234'', 40000)])
      ''sock1'' = Some ''u1''"
    by (simp add: r2 exampleSecond_eq)
  have i1: "map_option currentQuestionIndex (activeSessions exampleTied ''ABC234'') = Some 0"
    by (simp add: exampleTied_eq)
  have i2: "map_option currentQuestionIndex (activeSessions exampleSecond ''ABC234'') = Some 1"
    by (simp add: exampleSecond_eq)
  from second_answer_rejected [OF a o o1, of "''c''" 5000] i1
  have d: "answer_submit exampleTied ''sock1'' ''ABC234'' 0 ''c'' 5000
       = (Inl AlreadyAnswered, exampleTied)
     \<and> recordAnswer exampleTied ''ABC234'' ''u1'' ''c'' 5000 = (Inl AlreadyAnswered, exampleTied)"
    unfolding r1 by auto
  from second_answer_rejected [OF a o o2, of "''c''" 41000] i2
  have c: "answer_submit exampleSecond ''sock1'' ''ABC234'' 0 ''c'' 41000
       = (Inl QuestionChanged, exampleSecond)"
    unfolding r2 by auto
  from a r1 r2 d c show ?thesis by blast
qed

subsection \<open>The leaderboard\<close>

lemma mset_sort_insert: "mset (sort_insert cmp x xs) = add_mset x (mset xs)"
  by (induction xs) auto

lemma mset_array_sort: "mset (array_sort cmp xs) = mset xs"
  unfolding array_sort_def by (induction xs) (auto simp: mset_sort_insert)

lemma set_sort_insert: "set (sort_insert cmp x xs) = insert x (set xs)"
  by (induction xs) auto

lemma sorted_sort_insert:
  assumes total: "\<And>a b. cmp a b \<le> 0 \<or> cmp b a \<le> 0"
    and trans: "\<And>a b c. cmp a b \<le> 0 \<Longrightarrow> cmp b c \<le> 0 \<Longrightarrow> cmp a c \<le> 0"
    and "sorted_wrt (\<lambda>a b. cmp a b \<le> 0) xs"
  shows "sorted_wrt (\<lambda>a b. cmp a b \<le> 0) (sort_insert cmp x xs)"
  using assms(3)
proof (induction xs)
  case Nil
  then show ?case by simp
next
  case (Cons y ys)
  show ?case
  proof (cases "cmp x y \<le> 0")
    case True
    with Cons.prems trans show ?thesis by auto
  next
    case False
    with total have "cmp y x \<le> 0" by blast
    with False Cons show ?thesis by (auto simp: set_sort_insert)
  qed
qed

lemma sorted_array_sort:
  assumes total: "\<And>a b. cmp a b \<le> 0 \<or> cmp b a \<le> 0"
    and trans: "\<And>a b c. cmp a b \<le> 0 \<Longrightarrow> cmp b c \<le> 0 \<Longrightarrow> cmp a c \<le> 0"
  shows "sorted_wrt (\<lambda>a b. cmp a b \<le> 0) (array_sort cmp xs)"
  unfolding array_sort_def
proof (induction xs)
  case Nil
  then show ?case by simp
next
  case (Cons x xs)
  from sorted_sort_insert [of cmp, OF total trans Cons] show ?case by simp
qed

lemma compareParticipants_le:
  "compareParticipants lc a b \<le> 0 \<longleftrightarrow> spec_ranked_before lc a b"
  by (auto simp: compareParticipants_def spec_ranked_before_def)

lemma spec_ranked_before_total:
  assumes "consistentCollation lc"
  shows "spec_ranked_before lc a b \<or> spec_ranked_before lc b a"
proof -
  from assms have "lc (userName a) (userName b) \<le> 0 \<or> lc (userName b) (userName a) \<le> 0"
    unfolding consistentCollation_def by blast
  then show ?thesis
    unfolding spec_ranked_before_def by auto
qed

lemma spec_ranked_before_trans:
  assumes "consistentCollation lc"
    and "spec_ranked_before lc a b" and "spec_ranked_before lc b c"
  shows "spec_ranked_before lc a c"
proof -
  from assms(1) have t: "\<And>x y z. lc x y \<le> 0 \<Longrightarrow> lc y z \<le> 0 \<Longrightarrow> lc x z \<le> 0"
    unfolding consistentCollation_def by blast
  from assms(2,3) show ?thesis
    unfolding spec_ranked_before_def
    using t [of "userName a" "userName b" "userName c"] by auto
qed

lemma sorted_participants:
  assumes "consistentCollation lc"
  shows "sorted_wrt (spec_ranked_before lc) (array_sort (compareParticipants lc) xs)"
proof -
  have "sorted_wrt (\<lambda>a b. compareParticipants lc a b \<le> 0)
      (array_sort (compareParticipants lc) xs)"
    by (rule sorted_array_sort)
      (use assms spec_ranked_before_total spec_ranked_before_trans in
        \<open>auto simp: compareParticipants_le\<close>)
  then show ?thesis
    by (simp add: compareParticipants_le [abs_def])
qed

lemma codeUnitCompare_total: "codeUnitCompare a b \<le> 0 \<or> codeUnitCompare b a \<le> 0"
  by (induction a b rule: codeUnitCompare.induct) auto

lemma codeUnitCompare_Cons_le:
  "codeUnitCompare (x # xs) (y # ys) \<le> 0 \<longleftrightarrow>
     (of_char x :: nat) < of_char y \<or>
     ((of_char x :: nat) = of_char y \<and> codeUnitCompare xs ys \<le> 0)"
  by auto

lemma codeUnitCompare_trans:
  "codeUnitCompare a b \<le> 0 \<Longrightarrow> codeUnitCompare b c \<le> 0 \<Longrightarrow> codeUnitCompare a c \<le> 0"
proof (induction a arbitrary: b c)
  case Nil
  then show ?case by (cases c) simp_all
next
  case (Cons x xs)
  from Cons.prems(1) obtain y ys where b: "b = y # ys"
    by (cases b) auto
  from Cons.prems(2) b obtain z zs where c: "c = z # zs"
    by (cases c) auto
  from Cons.prems b c have
    xy: "(of_char x :: nat) < of_char y \<or>
      ((of_char x :: nat) = of_char y \<and> codeUnitCompare xs ys \<le> 0)"
    and yz: "(of_char y :: nat) < of_char z \<or>
      ((of_char y :: nat) = of_char z \<and> codeUnitCompare ys zs \<le> 0)"
    by (simp_all only: codeUnitCompare_Cons_le)
  have "(of_char x :: nat) < of_char z \<or>
      ((of_char x :: nat) = of_char z \<and> codeUnitCompare xs zs \<le> 0)"
    using xy yz Cons.IH [of ys zs] by auto
  then show ?case
    by (simp only: c codeUnitCompare_Cons_le)
qed

lemma codeUnitCompare_consistent: "consistentCollation codeUnitCompare"
  unfolding consistentCollation_def
  using codeUnitCompare_total codeUnitCompare_trans by blast

lemma map_rank_enumerate:
  "map (\<lambda>ip. rank (toEntry ip)) (enumerate 0 xs) = map Suc [0..<length xs]"
proof -
  have "map (\<lambda>ip. rank (toEntry ip)) (enumerate 0 xs) = map (\<lambda>ip. Suc (fst ip)) (enumerate 0 xs)"
    by (simp add: toEntry_def)
  also have "\<dots> = map Suc (map fst (enumerate 0 xs))"
    by (simp only: map_map o_def)
  also have "\<dots> = map Suc [0..<length xs]"
    by (simp only: map_fst_enumerate) simp
  finally show ?thesis .
qed

lemma length_slice0:
  "length (slice0 xs e) =
     min (length xs) (if e < 0 then nat (int (length xs) + e) else nat e)"
  by (simp add: slice0_def min.commute)

lemma nth_slice0: "i < length (slice0 xs e) \<Longrightarrow> slice0 xs e ! i = xs ! i"
  by (simp add: slice0_def)

text \<open>
  The claim that entries tied on score and correct count share a rank fails: Ann and Bob
  both have 147 points and one correct answer, and the leaderboard gives them the ranks 1
  and 2.
\<close>

theorem getLeaderboard_tie_counterexample:
  "map (\<lambda>e. (e_userName e, e_score e, e_correctAnswers e, rank e))
     (getLeaderboard codeUnitCompare exampleTied ''ABC234'' 10) =
   [(''Ann'', 147, 1, 1), (''Bob'', 147, 1, 2)]"
  by (simp add: getLeaderboard_def exampleTied_eq array_sort_def compareParticipants_def
      slice0_def enumerate_eq_zip toEntry_def example_defs newParticipant_def upt_rec)

text \<open>
  C5 (amended). For every participant registry and every consistent collation, the
  leaderboard is the first entries (\<open>limit\<close> of them, or all if there are fewer) of a
  permutation \<open>ps\<close> of the participants that is sorted by score descending, then correct
  count descending, then display name ascending; entry \<open>i\<close> (counting from 0) copies the
  fields of \<open>ps ! i\<close> and has the rank \<open>i + 1\<close>. Ranks are positions: no two entries share
  a rank, tied or not.
\<close>

theorem getLeaderboard_sorted_positional:
  assumes "consistentCollation lc" and "activeSessions w code = Some s"
  shows "\<exists>ps. mset ps = mset (map snd (participants s))
     \<and> sorted_wrt (spec_ranked_before lc) ps
     \<and> length (getLeaderboard lc w code limit) =
         min (length ps) (if limit < 0 then nat (int (length ps) + limit) else nat limit)
     \<and> (\<forall>i < length (getLeaderboard lc w code limit).
          rank (getLeaderboard lc w code limit ! i) = i + 1
          \<and> e_oderId (getLeaderboard lc w code limit ! i) = oderId (ps ! i)
          \<and> e_userName (getLeaderboard lc w code limit ! i) = userName (ps ! i)
          \<and> e_userPhoto (getLeaderboard lc w code limit ! i) = userPhoto (ps ! i)
          \<and> e_score (getLeaderboard lc w code limit ! i) = score (ps ! i)
          \<and> e_correctAnswers (getLeaderboard lc w code limit ! i) = correctAnswers (ps ! i)
          \<and> e_totalAnswered (getLeaderboard lc w code limit ! i) = totalAnswered (ps ! i))
     \<and> distinct (map rank (getLeaderboard lc w code limit))"
proof -
  define ps where "ps = array_sort (compareParticipants lc) (map snd (participants s))"
  define lb where "lb = getLeaderboard lc w code limit"
  have lb: "lb = map toEntry (enumerate 0 (slice0 ps limit))"
    using assms(2) by (simp add: lb_def ps_def getLeaderboard_def)
  have m: "mset ps = mset (map snd (participants s))"
    by (simp add: ps_def mset_array_sort)
  have so: "sorted_wrt (spec_ranked_before lc) ps"
    unfolding ps_def by (rule sorted_participants [OF assms(1)])
  have len: "length lb =
      min (length ps) (if limit < 0 then nat (int (length ps) + limit) else nat limit)"
    by (simp add: lb length_slice0)
  have nth: "lb ! i = toEntry (i, ps ! i)" if "i < length lb" for i
    using that by (simp add: lb nth_enumerate_eq nth_slice0)
  have fields: "rank (lb ! i) = i + 1
          \<and> e_oderId (lb ! i) = oderId (ps ! i)
          \<and> e_userName (lb ! i) = userName (ps ! i)
          \<and> e_userPhoto (lb ! i) = userPhoto (ps ! i)
          \<and> e_score (lb ! i) = score (ps ! i)
          \<and> e_correctAnswers (lb ! i) = correctAnswers (ps ! i)
          \<and> e_totalAnswered (lb ! i) = totalAnswered (ps ! i)" if "i < length lb" for i
    by (simp add: nth [OF that] toEntry_def)
  have "map rank lb = map Suc [0..<length (slice0 ps limit)]"
    by (simp add: lb o_def map_rank_enumerate)
  then have d: "distinct (map rank lb)"
    by (simp add: distinct_map)
  from m so len fields d show ?thesis
    unfolding lb_def by blast
qed

text \<open>Scenario E: the tied Ann and Bob appear in name order, with the ranks 1 and 2.\<close>

theorem getLeaderboard_sorted_positional_example:
  "map e_userName (getLeaderboard codeUnitCompare exampleTied ''ABC234'' 10) = [''Ann'', ''Bob'']
   \<and> map rank (getLeaderboard codeUnitCompare exampleTied ''ABC234'' 10) = [1, 2]
   \<and> distinct (map rank (getLeaderboard codeUnitCompare exampleTied ''ABC234'' 10))"
proof -
  define s where "s = the (activeSessions exampleTied ''ABC234'')"
  have s: "activeSessions exampleTied ''ABC234'' = Some s"
    by (simp add: s_def exampleTied_eq)
  have e: "map e_userName (getLeaderboard codeUnitCompare exampleTied ''ABC234'' 10)
        = [''Ann'', ''Bob'']
      \<and> map rank (getLeaderboard codeUnitCompare exampleTied ''ABC234'' 10) = [1, 2]"
    by (simp add: getLeaderboard_def exampleTied_eq array_sort_def compareParticipants_def
      slice0_def enumerate_eq_zip toEntry_def example_defs newParticipant_def upt_rec)
  from getLeaderboard_sorted_positional [OF codeUnitCompare_consistent s, of 10]
  have "distinct (map rank (getLeaderboard codeUnitCompare exampleTied ''ABC234'' 10))"
    by blast
  with e show ?thesis by blast
qed

subsection \<open>Advancing to the next question\<close>

lemma advanceQuestion_result:
  assumes "activeSessions w code = Some s"
  shows "\<exists>s1 w1. advanceQuestion w code now = (Some s1, w1)
     \<and> activeSessions w1 code = Some s1
     \<and> questionTimer s1 = None
     \<and> pendingTimers w1 = filter (\<lambda>(h, a). Some h \<noteq> questionTimer s) (pendingTimers w)
     \<and> nextTimer w1 = nextTimer w
     \<and> currentQuestionIndex s1 = currentQuestionIndex s + 1
     \<and> questionStartTime s1 = Some now
     \<and> status s1 = (if currentQuestionIndex s = - 1 then InProgress else status s)
     \<and> questions s1 = questions s
     \<and> participants s1 = map (\<lambda>(k, p). (k, clearFlags p)) (participants s)"
proof (cases "questionTimer s")
  case None
  with assms show ?thesis
    by (simp add: advanceQuestion_def Let_def)
next
  case (Some h)
  have "(\<lambda>(h', a). h' \<noteq> h) = (\<lambda>(h', a :: timer_action). Some h' \<noteq> Some h)"
    by auto
  with Some assms show ?thesis
    by (simp add: advanceQuestion_def Let_def clearTimeout_def)
qed

lemma setQuestionTimer_result:
  assumes "activeSessions w code = Some s" and "questionTimer s = None"
  shows "activeSessions (setQuestionTimer w code cb) code = Some (s\<lparr>questionTimer := Some (nextTimer w)\<rparr>)
     \<and> pendingTimers (setQuestionTimer w code cb) = pendingTimers w @ [(nextTimer w, cb)]"
  using assms by (simp add: setQuestionTimer_def setTimeout_def Let_def)

lemma flags_cleared:
  "\<forall>(k, p) \<in> set (map (\<lambda>(k, p). (k, clearFlags p)) ps).
     \<not> hasAnsweredCurrent p \<and> currentAnswer p = None"
  by (auto simp: clearFlags_def)

lemma keys_kept: "map fst (map (\<lambda>(k, p). (k, f p)) ps) = map fst ps"
  by (induction ps) auto

text \<open>
  C6. Advancing a session (whose index is at least \<open>-1\<close>, as every session's is), as the
  host's \<open>question:next\<close> command does: at the last index
  (or beyond) the command fails with the out-of-questions error and changes nothing;
  otherwise it replies the new index and, in the new state, the index is one higher, the
  start time is \<open>now\<close>, the status is in-progress if this was the first call (index
  \<open>-1\<close>, the lobby) and as before otherwise, the same participants are registered with
  their answer flags cleared, the session's previous question timer is no longer pending,
  and the new question's timer is. \<open>advanceQuestion\<close> itself does all of this up to arming
  the new timer: it leaves the session without a question timer, the old one cancelled.
\<close>

theorem question_next_advances:
  assumes "activeSessions w code = Some s" and "adminSocketId s = sock"
    and "- 1 \<le> currentQuestionIndex s"
  shows
    "(currentQuestionIndex s \<ge> int (length (questions s)) - 1 \<longrightarrow>
        question_next w sock code now = (Inl NoMoreQuestions, w))
     \<and> (currentQuestionIndex s < int (length (questions s)) - 1 \<longrightarrow>
        (\<exists>s' w'. question_next w sock code now = (Inr (currentQuestionIndex s + 1), w')
           \<and> activeSessions w' code = Some s'
           \<and> currentQuestionIndex s' = currentQuestionIndex s + 1
           \<and> questionStartTime s' = Some now
           \<and> status s' = (if currentQuestionIndex s = - 1 then InProgress else status s)
           \<and> map fst (participants s') = map fst (participants s)
           \<and> (\<forall>(k, p) \<in> set (participants s').
                 \<not> hasAnsweredCurrent p \<and> currentAnswer p = None)
           \<and> questionTimer s' = Some (nextTimer w)
           \<and> pendingTimers w' =
               filter (\<lambda>(h, a). Some h \<noteq> questionTimer s) (pendingTimers w)
                 @ [(nextTimer w, QuestionEnd code)]))
     \<and> (\<exists>s1 w1. advanceQuestion w code now = (Some s1, w1)
           \<and> activeSessions w1 code = Some s1
           \<and> currentQuestionIndex s1 = currentQuestionIndex s + 1
           \<and> questionStartTime s1 = Some now
           \<and> status s1 = (if currentQuestionIndex s = - 1 then InProgress else status s)
           \<and> map fst (participants s1) = map fst (participants s)
           \<and> (\<forall>(k, p) \<in> set (participants s1).
                 \<not> hasAnsweredCurrent p \<and> currentAnswer p = None)
           \<and> questionTimer s1 = None
           \<and> (\<forall>h. questionTimer s = Some h \<longrightarrow> \<not> timerPending w1 h))"
proof (intro conjI impI)
  assume "currentQuestionIndex s \<ge> int (length (questions s)) - 1"
  with assms show "question_next w sock code now = (Inl NoMoreQuestions, w)"
    by (simp add: question_next_def getSession_def)
next
  from advanceQuestion_result [OF assms(1), of now] obtain s1 w1 where
    a: "advanceQuestion w code now = (Some s1, w1)"
      "activeSessions w1 code = Some s1"
      "questionTimer s1 = None"
      "pendingTimers w1 = filter (\<lambda>(h, a). Some h \<noteq> questionTimer s) (pendingTimers w)"
      "nextTimer w1 = nextTimer w"
      "currentQuestionIndex s1 = currentQuestionIndex s + 1"
      "questionStartTime s1 = Some now"
      "status s1 = (if currentQuestionIndex s = - 1 then InProgress else status s)"
      "participants s1 = map (\<lambda>(k, p). (k, clearFlags p)) (participants s)"
    by blast
  have keys: "map fst (participants s1) = map fst (participants s)"
    unfolding a(9) by (rule keys_kept)
  have flags: "\<forall>(k, p) \<in> set (participants s1). \<not> hasAnsweredCurrent p \<and> currentAnswer p = None"
    unfolding a(9) by (rule flags_cleared)
  have np: "\<forall>h. questionTimer s = Some h \<longrightarrow> \<not> timerPending w1 h"
    by (auto simp: timerPending_def a(4))
  from a keys flags np
  show "\<exists>s1 w1. advanceQuestion w code now = (Some s1, w1)
           \<and> activeSessions w1 code = Some s1
           \<and> currentQuestionIndex s1 = currentQuestionIndex s + 1
           \<and> questionStartTime s1 = Some now
           \<and> status s1 = (if currentQuestionIndex s = - 1 then InProgress else status s)
           \<and> map fst (participants s1) = map fst (participants s)
           \<and> (\<forall>(k, p) \<in> set (participants s1).
                 \<not> hasAnsweredCurrent p \<and> currentAnswer p = None)
           \<and> questionTimer s1 = None
           \<and> (\<forall>h. questionTimer s = Some h \<longrightarrow> \<not> timerPending w1 h)"
    by blast
  assume lt: "currentQuestionIndex s < int (length (questions s)) - 1"
  define w' where "w' = setQuestionTimer w1 code (QuestionEnd code)"
  define s' where "s' = s1\<lparr>questionTimer := Some (nextTimer w)\<rparr>"
  from setQuestionTimer_result [OF a(2,3), of "QuestionEnd code"] a(4,5)
  have t: "activeSessions w' code = Some s'"
    "pendingTimers w' = filter (\<lambda>(h, a). Some h \<noteq> questionTimer s) (pendingTimers w)
                 @ [(nextTimer w, QuestionEnd code)]"
    by (simp_all add: w'_def s'_def)
  from assms lt a(1) have q: "question_next w sock code now = (Inr (currentQuestionIndex s + 1), w')"
    by (simp add: question_next_def getSession_def Let_def w'_def array_get_def)
  from a(6,7,8) keys flags have "currentQuestionIndex s' = currentQuestionIndex s + 1
           \<and> questionStartTime s' = Some now
           \<and> status s' = (if currentQuestionIndex s = - 1 then InProgress else status s)
           \<and> map fst (participants s') = map fst (participants s)
           \<and> (\<forall>(k, p) \<in> set (participants s').
                 \<not> hasAnsweredCurrent p \<and> currentAnswer p = None)
           \<and> questionTimer s' = Some (nextTimer w)"
    by (simp add: s'_def)
  with q t show "\<exists>s' w'. question_next w sock code now = (Inr (currentQuestionIndex s + 1), w')
           \<and> activeSessions w' code = Some s'
           \<and> currentQuestionIndex s' = currentQuestionIndex s + 1
           \<and> questionStartTime s' = Some now
           \<and> status s' = (if currentQuestionIndex s = - 1 then InProgress else status s)
           \<and> map fst (participants s') = map fst (participants s)
           \<and> (\<forall>(k, p) \<in> set (participants s').
                 \<not> hasAnsweredCurrent p \<and> currentAnswer p = None)
           \<and> questionTimer s' = Some (nextTimer w)
           \<and> pendingTimers w' =
               filter (\<lambda>(h, a). Some h \<noteq> questionTimer s) (pendingTimers w)
                 @ [(nextTimer w, QuestionEnd code)]"
    by blast
qed


text \<open>
  In the example: advancing from the first to the second question, failing to advance past
  it, and the first advance out of the lobby.
\<close>

theorem question_next_advances_example:
  "question_next exampleSecond ''sockH'' ''ABC234'' 80000 = (Inl NoMoreQuestions, exampleSecond)
   \<and> map_option (\<lambda>s. (currentQuestionIndex s, status s, questionTimer s))
        (activeSessions exampleTied ''ABC234'') = Some (0, InProgress, Some 0)
   \<and> pendingTimers exampleTied = [(0, QuestionEnd ''ABC234'')]
   \<and> question_next exampleTied ''sockH'' ''ABC234'' 40000 = (Inr 1, exampleSecond)
   \<and> map_option (\<lambda>s. (currentQuestionIndex s, questionStartTime s, status s, questionTimer s))
        (activeSessions exampleSecond ''ABC234'') = Some (1, Some 40000, InProgress, Some 1)
   \<and> pendingTimers exampleSecond = [(1, QuestionEnd ''ABC234'')]
   \<and> map_option (\<lambda>s. (currentQuestionIndex s, status s))
        (activeSessions exampleLobby ''ABC234'') = Some (- 1, Lobby)
   \<and> question_next exampleLobby ''sockH'' ''ABC234'' 1000 = (Inr 0, exampleOpen)
   \<and> map_option (\<lambda>s. (currentQuestionIndex s, status s))
        (activeSessions exampleOpen ''ABC234'') = Some (0, InProgress)"
proof -
  define s2 where "s2 = the (activeSessions exampleSecond ''ABC234'')"
  define s1 where "s1 = the (activeSessions exampleTied ''ABC234'')"
  define s0 where "s0 = the (activeSessions exampleLobby ''ABC234'')"
  have s2: "activeSessions exampleSecond ''ABC234'' = Some s2"
    and a2: "adminSocketId s2 = ''sockH''"
    and l2: "currentQuestionIndex s2 \<ge> int (length (questions s2)) - 1"
    by (simp_all add: s2_def exampleSecond_eq example_defs newSession_def)
  have s1: "activeSessions exampleTied ''ABC234'' = Some s1"
    and a1: "adminSocketId s1 = ''sockH''"
    and l1: "currentQuestionIndex s1 < int (length (questions s1)) - 1"
    and i1: "currentQuestionIndex s1 = 0"
    by (simp_all add: s1_def exampleTied_eq example_defs newSession_def)
  have s0: "activeSessions exampleLobby ''ABC234'' = Some s0"
    and a0: "adminSocketId s0 = ''sockH''"
    and l0: "currentQuestionIndex s0 < int (length (questions s0)) - 1"
    and i0: "currentQuestionIndex s0 = - 1"
    by (simp_all add: s0_def exampleLobby_eq example_defs newSession_def)
  have b: "- 1 \<le> currentQuestionIndex s2" "- 1 \<le> currentQuestionIndex s1"
    "- 1 \<le> currentQuestionIndex s0"
    by (simp_all add: s2_def s1_def s0_def exampleSecond_eq exampleTied_eq exampleLobby_eq
        newSession_def)
  from question_next_advances [OF s2 a2 b(1), of 80000] l2
  have e: "question_next exampleSecond ''sockH'' ''ABC234'' 80000
      = (Inl NoMoreQuestions, exampleSecond)"
    by blast
  from question_next_advances [OF s1 a1 b(2), of 40000] l1 i1
  have "fst (question_next exampleTied ''sockH'' ''ABC234'' 40000) = Inr 1"
    by auto
  then have n1: "question_next exampleTied ''sockH'' ''ABC234'' 40000 = (Inr 1, exampleSecond)"
    by (simp add: exampleSecond_def prod_eq_iff)
  from question_next_advances [OF s0 a0 b(3), of 1000] l0 i0
  have "fst (question_next exampleLobby ''sockH'' ''ABC234'' 1000) = Inr 0"
    by auto
  then have n0: "question_next exampleLobby ''sockH'' ''ABC234'' 1000 = (Inr 0, exampleOpen)"
    by (simp add: exampleOpen_def prod_eq_iff)
  have v: "map_option (\<lambda>s. (currentQuestionIndex s, status s, questionTimer s))
        (activeSessions exampleTied ''ABC234'') = Some (0, InProgress, Some 0)
   \<and> pendingTimers exampleTied = [(0, QuestionEnd ''ABC234'')]
   \<and> map_option (\<lambda>s. (currentQuestionIndex s, questionStartTime s, status s, questionTimer s))
        (activeSessions exampleSecond ''ABC234'') = Some (1, Some 40000, InProgress, Some 1)
   \<and> pendingTimers exampleSecond = [(1, QuestionEnd ''ABC234'')]
   \<and> map_option (\<lambda>s. (currentQuestionIndex s, status s))
        (activeSessions exampleLobby ''ABC234'') = Some (- 1, Lobby)
   \<and> map_option (\<lambda>s. (currentQuestionIndex s, status s))
        (activeSessions exampleOpen ''ABC234'') = Some (0, InProgress)"
    by (simp add: exampleTied_eq exampleSecond_eq exampleLobby_eq exampleOpen_eq newSession_def)
  from e n1 n0 v show ?thesis by blast
qed

subsection \<open>Joining and reconnecting\<close>

lemma map_fst_map_set:
  "map_get ps k = Some v \<Longrightarrow> map fst (map_set k v' ps) = map fst ps"
  by (induction ps) (auto split: if_splits)

lemma exampleLateJoin_eq:
  "exampleLateJoin =
    \<lparr>activeSessions = [''LATE22'' \<mapsto>
        (newSession ''LATE22'' (exampleData\<lparr>sd_allowLateJoin := Some True\<rparr>) 0)\<lparr>participants :=
          [(''u1'', (exParticipant ''u1'' ''Ann'' ''sock1'' 10)\<lparr>hasAnsweredCurrent := True,
               currentAnswer := Some ''b'', score := 147, totalAnswered := 1,
               correctAnswers := 1, isConnected := False,
               lastDisconnectedAt := Some 4000\<rparr>)],
          currentQuestionIndex := 0, questionStartTime := Some 1000, status := InProgress,
          questionTimer := Some 0\<rparr>],
      pendingTimers = [(0, QuestionEnd ''LATE22'')], nextTimer = 1,
      socketOderId = [''sock1'' \<mapsto> ''u1''],
      socketSessionCode = [''sock1'' \<mapsto> ''LATE22'']\<rparr>"
  by (simp add: exampleLateJoin_def run_def emptyWorld_def example_defs handler_defs bonus_after_2000)

lemma session_join_existing_rejected:
  assumes "activeSessions w code = Some s"
    and "code = [] \<or> oid = [] \<or> name = [] \<or> status s = Completed \<or> status s = Interrupted
       \<or> (status s = InProgress \<and> \<not> allowLateJoin s)"
  shows "\<exists>e. session_join w sock code oid name photo now = (Inl e, w)"
  using assms by (auto simp: session_join_def getSession_def)

lemma session_join_existing_accepted:
  assumes "activeSessions w code = Some s"
    and "map_get (participants s) oid = Some p"
    and "code \<noteq> []" "oid \<noteq> []" "name \<noteq> []"
    and "status s \<noteq> Completed" "status s \<noteq> Interrupted"
    and "status s = InProgress \<longrightarrow> allowLateJoin s"
  shows "session_join w sock code oid name photo now =
      (if status s = InProgress \<and> currentQuestionIndex s \<ge> 0
          \<and> array_get (questions s) (currentQuestionIndex s) = None
       then Inl HandlerException
       else Inr (Reconnected (length (participants s)) (score p)),
       bindSocket (w\<lparr>activeSessions := (activeSessions w)(code \<mapsto>
          s\<lparr>participants := map_set oid
             (p\<lparr>isConnected := True, socketId := (if sock = [] then socketId p else sock)\<rparr>)
             (participants s)\<rparr>)\<rparr>) sock code oid)"
proof -
  have len: "length (map_set oid v (participants s)) = length (participants s)" for v
    using map_fst_map_set [OF assms(2), of v] by (metis length_map)
  have "(if sock = [] then socketId p else sock) = (if sock = [] then socketId p else sock)"
    by simp
  with assms len show ?thesis
    by (auto simp: session_join_def getSession_def getParticipant_def getParticipantCount_def
        updateParticipantConnection_def Let_def bindSocket_def)
qed

lemma session_join_keeps_participant:
  assumes "activeSessions w code = Some s"
    and "map_get (participants s) oid = Some p"
  shows "\<exists>s' p'. activeSessions (snd (session_join w sock code oid name photo now)) code = Some s'
     \<and> map fst (participants s') = map fst (participants s)
     \<and> map_get (participants s') oid = Some p'
     \<and> score p' = score p \<and> correctAnswers p' = correctAnswers p
     \<and> totalAnswered p' = totalAnswered p
     \<and> hasAnsweredCurrent p' = hasAnsweredCurrent p"
proof (cases "code = [] \<or> oid = [] \<or> name = [] \<or> status s = Completed \<or> status s = Interrupted
       \<or> (status s = InProgress \<and> \<not> allowLateJoin s)")
  case True
  from session_join_existing_rejected [OF assms(1) True]
  have "snd (session_join w sock code oid name photo now) = w"
    by (metis snd_conv)
  with assms show ?thesis by simp
next
  case False
  then have "code \<noteq> []" "oid \<noteq> []" "name \<noteq> []"
    "status s \<noteq> Completed" "status s \<noteq> Interrupted"
    "status s = InProgress \<longrightarrow> allowLateJoin s"
    by auto
  from session_join_existing_accepted [OF assms this] show ?thesis
    by (simp add: map_fst_map_set [OF assms(2)])
qed

text \<open>
  C8. A repeated join with the id of a registered participant should be a reconnection
  that marks the participant connected again. The handler tests the late-join rule before
  it looks the participant up, so while a quiz that does not allow late joins is in
  progress the join is refused: Ann, registered and disconnected during the first question,
  joins again with her id, gets the late-join error, and stays marked disconnected on her
  old socket. Her entry, score and counters are untouched.
\<close>

theorem session_join_reconnect_refused:
  "map_option (\<lambda>s. (status s, allowLateJoin s, map fst (participants s)))
       (activeSessions exampleLeft ''ABC234'') = Some (InProgress, False, [''u1'', ''u2''])
   \<and> map_option (\<lambda>p. (isConnected p, socketId p)) (getParticipant exampleLeft ''ABC234'' ''u1'')
       = Some (False, ''sock1'')
   \<and> session_join exampleLeft ''sock9'' ''ABC234'' ''u1'' ''Ann'' None 5000
       = (Inl LateJoinNotAllowed, exampleLeft)"
  by (simp add: exampleLeft_eq session_join_def getSession_def getParticipant_def
      newSession_def newParticipant_def example_defs)

text \<open>
  C10. \<open>addParticipant\<close> with an id that is already registered replaces the entry, in
  place, by a fresh one with score, correct count and answered count 0 and the answered
  flag off; the \<open>session:join\<close> handler, which looks the participant up first, leaves
  these fields of a registered participant as they are. So it is the handler's lookup that
  keeps a repeated join from resetting the participant.
\<close>

theorem addParticipant_replaces_existing:
  assumes "activeSessions w code = Some s"
    and "map_get (participants s) (pd_oderId pd) = Some p"
  shows "(\<exists>w' s'. addParticipant w code pd now = (Inr (newParticipant pd now), w')
       \<and> activeSessions w' code = Some s'
       \<and> map fst (participants s') = map fst (participants s)
       \<and> map_get (participants s') (pd_oderId pd) = Some (newParticipant pd now)
       \<and> score (newParticipant pd now) = 0
       \<and> correctAnswers (newParticipant pd now) = 0
       \<and> totalAnswered (newParticipant pd now) = 0
       \<and> \<not> hasAnsweredCurrent (newParticipant pd now))
     \<and> (\<exists>s' p'. activeSessions
            (snd (session_join w sock code (pd_oderId pd) name photo now')) code = Some s'
       \<and> map fst (participants s') = map fst (participants s)
       \<and> map_get (participants s') (pd_oderId pd) = Some p'
       \<and> score p' = score p \<and> correctAnswers p' = correctAnswers p
       \<and> totalAnswered p' = totalAnswered p
       \<and> hasAnsweredCurrent p' = hasAnsweredCurrent p)"
proof
  from assms show "\<exists>w' s'. addParticipant w code pd now = (Inr (newParticipant pd now), w')
       \<and> activeSessions w' code = Some s'
       \<and> map fst (participants s') = map fst (participants s)
       \<and> map_get (participants s') (pd_oderId pd) = Some (newParticipant pd now)
       \<and> score (newParticipant pd now) = 0
       \<and> correctAnswers (newParticipant pd now) = 0
       \<and> totalAnswered (newParticipant pd now) = 0
       \<and> \<not> hasAnsweredCurrent (newParticipant pd now)"
    by (simp add: addParticipant_def map_fst_map_set) (simp add: newParticipant_def)
next
  from session_join_keeps_participant [OF assms]
  show "\<exists>s' p'. activeSessions
            (snd (session_join w sock code (pd_oderId pd) name photo now')) code = Some s'
       \<and> map fst (participants s') = map fst (participants s)
       \<and> map_get (participants s') (pd_oderId pd) = Some p'
       \<and> score p' = score p \<and> correctAnswers p' = correctAnswers p
       \<and> totalAnswered p' = totalAnswered p
       \<and> hasAnsweredCurrent p' = hasAnsweredCurrent p" .
qed

text \<open>Ann, with 147 points: re-added directly she is reset, re-joining she is not.\<close>

theorem addParticipant_replaces_existing_example:
  "map_option (\<lambda>p. (score p, correctAnswers p, totalAnswered p, hasAnsweredCurrent p))
       (getParticipant exampleLateJoin ''LATE22'' ''u1'') = Some (147, 1, 1, True)
   \<and> map_option (\<lambda>p. (score p, correctAnswers p, totalAnswered p, hasAnsweredCurrent p))
       (getParticipant
          (snd (addParticipant exampleLateJoin ''LATE22''
             \<lparr>pd_oderId = ''u1'', pd_userName = ''Ann'', pd_userPhoto = None,
              pd_socketId = ''sock9''\<rparr> 5000))
          ''LATE22'' ''u1'') = Some (0, 0, 0, False)
   \<and> map_option (\<lambda>p. (score p, correctAnswers p, totalAnswered p, hasAnsweredCurrent p))
       (getParticipant
          (snd (session_join exampleLateJoin ''sock9'' ''LATE22'' ''u1'' ''Ann'' None 5000))
          ''LATE22'' ''u1'') = Some (147, 1, 1, True)"
proof -
  define s where "s = the (activeSessions exampleLateJoin ''LATE22'')"
  define p where "p = the (map_get (participants s) ''u1'')"
  define pd where "pd = \<lparr>pd_oderId = ''u1'', pd_userName = ''Ann'', pd_userPhoto = None,
              pd_socketId = ''sock9''\<rparr>"
  have s: "activeSessions exampleLateJoin ''LATE22'' = Some s"
    by (simp add: s_def exampleLateJoin_eq)
  have p: "map_get (participants s) (pd_oderId pd) = Some p"
    by (simp add: p_def pd_def s_def exampleLateJoin_eq)
  have pv: "score p = 147 \<and> correctAnswers p = 1 \<and> totalAnswered p = 1 \<and> hasAnsweredCurrent p"
    by (simp add: p_def s_def exampleLateJoin_eq example_defs newParticipant_def)
  have o: "pd_oderId pd = ''u1''"
    by (simp add: pd_def)
  from addParticipant_replaces_existing [OF s p, of 5000 "''sock9''" "''Ann''" None 5000] pv
  have "map_option (\<lambda>p. (score p, correctAnswers p, totalAnswered p, hasAnsweredCurrent p))
       (getParticipant (snd (addParticipant exampleLateJoin ''LATE22'' pd 5000))
          ''LATE22'' ''u1'') = Some (0, 0, 0, False)
    \<and> map_option (\<lambda>p. (score p, correctAnswers p, totalAnswered p, hasAnsweredCurrent p))
       (getParticipant
          (snd (session_join exampleLateJoin ''sock9'' ''LATE22'' ''u1'' ''Ann'' None 5000))
          ''LATE22'' ''u1'') = Some (147, 1, 1, True)"
    unfolding getParticipant_def o by fastforce
  with s p pv o show ?thesis
    by (simp add: getParticipant_def pd_def)
qed

subsection \<open>Creating sessions\<close>





end
